theory Spec2Isabelle
  imports Main "HOL-Library.Word"
begin

section \<open>The replication consumer of \<open>main.go\<close>\<close>

text \<open>
  The program is one Go function, \<open>main\<close>, and one helper, \<open>decodeTextColumnData\<close>.
  \<open>main\<close> bootstraps a logical-replication session (lines 33-90) and then runs the
  receive loop (lines 92-256). The packages \<open>pgconn\<close>, \<open>pglogrepl\<close>, \<open>pgproto3\<close> and
  \<open>pgtype\<close> are third-party libraries: their parsers are parameters of the model (record
  \<open>Lib\<close>), and what the network and the clock deliver is an input of each loop iteration
  (record \<open>Env\<close>). A panic inside a library function is outside the model.
\<close>

subsection \<open>Basic types\<close>

type_synonym byte = "8 word"

text \<open>\<open>pglogrepl.LSN\<close> is a \<open>uint64\<close>; \<open>+\<close> wraps around.\<close>

type_synonym LSN = "64 word"

text \<open>
  A \<open>time.Time\<close> is modelled as the number of nanoseconds since the zero value
  \<open>time.Time{}\<close> (1 January of year 1, UTC), so \<open>time.Time{}\<close> is \<open>0\<close>,
  \<open>t.After(u)\<close> is \<open>u < t\<close> and \<open>t.Add(d)\<close> is \<open>t + d\<close>.
\<close>

type_synonym Time = int

text \<open>A Go call returning \<open>(x, err)\<close>: \<open>Err\<close> when \<open>err != nil\<close>, \<open>Ok x\<close> otherwise.\<close>

datatype 'a result = Err | Ok 'a

text \<open>
  An \<open>interface{}\<close> holding a decoded column value is \<open>'v option\<close>: \<open>None\<close> is Go's
  \<open>nil\<close>, \<open>Some v\<close> any other value. A row (\<open>map[string]interface{}\<close>) maps a column
  name to such a value; a name bound to \<open>nil\<close> is \<open>Some None\<close>, an absent name is \<open>None\<close>.
\<close>

type_synonym 'v row = "string \<rightharpoonup> 'v option"

subsection \<open>The library's message types, as far as \<open>main\<close> reads them\<close>

record PrimaryKeepaliveMessage =
  ServerWALEnd :: LSN
  ServerTime :: Time
  ReplyRequested :: bool

record XLogData =
  WALStart :: LSN
  ServerWALEnd :: LSN
  ServerTime :: Time
  WALData :: "byte list"

record TupleDataColumn =
  DataType :: byte
  Data :: "byte list"

record TupleData =
  Columns :: "TupleDataColumn list"

record RelationMessageColumn =
  Name :: string
  DataType :: "32 word"

record RelationMessage =
  RelationID :: "32 word"
  Namespace :: string
  RelationName :: string
  Columns :: "RelationMessageColumn list"

record InsertMessage =
  RelationID :: "32 word"
  Tuple :: TupleData

text \<open>\<open>OldTuple\<close> is a pointer that \<open>main\<close> tests against \<open>nil\<close> (line 194).\<close>

record UpdateMessage =
  RelationID :: "32 word"
  OldTuple :: "TupleData option"
  NewTuple :: TupleData

record DeleteMessage =
  RelationID :: "32 word"
  OldTuple :: "TupleData option"

record TruncateMessage =
  RelationIDs :: "32 word list"

text \<open>
  The dynamic type of the value returned by \<open>pglogrepl.Parse\<close>, one constructor per arm
  of the type switch of lines 148-252; \<open>OtherMsg\<close> is any type that reaches \<open>default\<close>.
\<close>

datatype Message =
    RelationMsg RelationMessage
  | BeginMsg
  | CommitMsg
  | InsertMsg InsertMessage
  | UpdateMsg UpdateMessage
  | DeleteMsg DeleteMessage
  | TruncateMsg TruncateMessage
  | TypeMsg
  | OriginMsg
  | OtherMsg

subsection \<open>Library functions as parameters\<close>

text \<open>
  A \<open>pgtype.TextDecoder\<close> that is also a \<open>pgtype.Value\<close>: \<open>DecodeText\<close> followed by
  \<open>Get\<close>. \<open>Err\<close> is a non-nil error of \<open>DecodeText\<close>.
\<close>

type_synonym 'v TextDecoder = "byte list \<Rightarrow> 'v option result"

text \<open>
  \<open>DataTypeForOID ci oid\<close> is \<open>None\<close> when the lookup's \<open>ok\<close> is false; otherwise it is
  \<open>Some d\<close>, where \<open>d\<close> is \<open>None\<close> when the registered value does not implement
  \<open>TextDecoder\<close> (the type assertion of line 262 fails). \<open>GenericText\<close> is the decoder
  \<open>&pgtype.GenericText{}\<close>.
\<close>

record 'v ConnInfo =
  DataTypeForOID :: "32 word \<Rightarrow> 'v TextDecoder option option"
  GenericText :: "'v TextDecoder"

record 'v Lib =
  ParsePrimaryKeepaliveMessage :: "byte list \<Rightarrow> PrimaryKeepaliveMessage result"
  ParseXLogData :: "byte list \<Rightarrow> XLogData result"
  Parse :: "byte list \<Rightarrow> Message result"
  NewConnInfo :: "'v ConnInfo"

subsection \<open>Ways the program stops, and what it prints\<close>

text \<open>\<open>log.Fatal*\<close> exits the process; each call site is one constructor.\<close>

datatype fatal =
    ConnectFailed
  | DropPublicationFailed
  | CreatePublicationFailed
  | IdentifySystemFailed
  | CreateReplicationSlotFailed
  | StartReplicationFailed
  | SendStandbyStatusUpdateFailed
  | ReceiveMessageFailed
  | ParsePrimaryKeepaliveMessageFailed
  | ParseXLogDataFailed
  | ParseLogicalFailed
  | UnknownRelationID "32 word"
  | ErrorDecodingColumnData

text \<open>
  A runtime panic: an index out of range (\<open>msg.Data[0]\<close>, \<open>rel.Columns[idx]\<close>), or the
  explicit \<open>panic(err)\<close> of line 69.
\<close>

datatype panic = IndexOutOfRange | SlotQueryFailed

datatype stop = Fatal fatal | Panic panic | Return

text \<open>
  What one loop iteration does to the outside: the status update it sends and the lines it
  prints, in order.
\<close>

datatype 'v effect =
    SendStandbyStatusUpdate LSN
  | LogSentStandbyStatus
  | LogWALError
  | LogUnexpectedMessage
  | LogKeepalive PrimaryKeepaliveMessage
  | LogXLogData XLogData
  | LogReceive Message
  | PrintBegin
  | PrintCommit
  | PrintToast "byte list"
  | PrintByteData "byte list"
  | LogInsert string string "'v row"
  | PrintOldTuple "TupleData option"
  | LogUpdate string string "'v row" "'v row"
  | PrintDelete DeleteMessage
  | PrintTruncate TruncateMessage
  | PrintType
  | LogUnknownMessage

text \<open>
  A computation that prints, and then either stops the program or yields a value.
  \<open>bind_out\<close> sequences two of them: the second does not run when the first stops.
\<close>

type_synonym ('o, 'a) exec = "'o list \<times> (stop + 'a)"

definition bind_out :: "('o, 'a) exec \<Rightarrow> ('a \<Rightarrow> ('o, 'b) exec) \<Rightarrow> ('o, 'b) exec" where
  "bind_out m f =
     (case m of
        (o1, Inl e) \<Rightarrow> (o1, Inl e)
      | (o1, Inr a) \<Rightarrow> (case f a of (o2, r) \<Rightarrow> (o1 @ o2, r)))"

subsection \<open>\<open>decodeTextColumnData\<close> (lines 259-273)\<close>

definition decodeTextColumnData ::
  "'v ConnInfo \<Rightarrow> byte list \<Rightarrow> 32 word \<Rightarrow> 'v option result" where
  "decodeTextColumnData ci data dataType =
     (let decoder =
        (case DataTypeForOID ci dataType of
           Some dt \<Rightarrow> (case dt of Some d \<Rightarrow> d | None \<Rightarrow> GenericText ci)
         | None \<Rightarrow> GenericText ci)
      in decoder data)"

subsection \<open>The per-column loop (lines 165-183, 195-213, 216-234)\<close>

text \<open>
  The three loops have the same body; \<open>decodeColumn\<close> is that body for the column \<open>col\<close>
  at position \<open>idx\<close>, writing into the row \<open>values\<close>. \<open>rel.Columns[idx]\<close> panics when
  \<open>idx\<close> is not below \<open>len(rel.Columns)\<close>. The tags are the bytes of \<open>'n'\<close>, \<open>'u'\<close>,
  \<open>'t'\<close> and \<open>'b'\<close>; any other tag falls through the \<open>switch\<close>.
\<close>

definition decodeColumn ::
  "'v ConnInfo \<Rightarrow> RelationMessage \<Rightarrow> nat \<Rightarrow> TupleDataColumn \<Rightarrow> 'v row \<Rightarrow> ('v effect, 'v row) exec" where
  "decodeColumn ci rel idx col values =
     (if length (RelationMessage.Columns rel) \<le> idx then ([], Inl (Panic IndexOutOfRange))
      else
        let colName = Name (RelationMessage.Columns rel ! idx) in
        if TupleDataColumn.DataType col = 0x6E then ([], Inr (values(colName \<mapsto> None)))
        else if TupleDataColumn.DataType col = 0x75 then ([PrintToast (Data col)], Inr values)
        else if TupleDataColumn.DataType col = 0x74 then
          (case decodeTextColumnData ci (Data col)
                  (RelationMessageColumn.DataType (RelationMessage.Columns rel ! idx)) of
             Err \<Rightarrow> ([], Inl (Fatal ErrorDecodingColumnData))
           | Ok val \<Rightarrow> ([], Inr (values(colName \<mapsto> val))))
        else if TupleDataColumn.DataType col = 0x62 then ([PrintByteData (Data col)], Inr values)
        else ([], Inr values))"

fun decodeColumns ::
  "'v ConnInfo \<Rightarrow> RelationMessage \<Rightarrow> nat \<Rightarrow> TupleDataColumn list \<Rightarrow> 'v row \<Rightarrow> ('v effect, 'v row) exec" where
  "decodeColumns ci rel idx [] values = ([], Inr values)"
| "decodeColumns ci rel idx (col # cols) values =
     bind_out (decodeColumn ci rel idx col values) (decodeColumns ci rel (Suc idx) cols)"

subsection \<open>The session state and one iteration of the loop\<close>

record State =
  clientXLogPos :: LSN
  nextStandbyMessageDeadline :: Time
  relations :: "32 word \<rightharpoonup> RelationMessage"

text \<open>\<open>time.Second * 10\<close>, in nanoseconds.\<close>

definition standbyMessageTimeout :: int where
  "standbyMessageTimeout = 10 * 1000000000"

text \<open>What \<open>conn.ReceiveMessage\<close> delivers (lines 105-123).\<close>

datatype Received =
    Timeout
  | ReceiveError
  | ErrorResponse
  | CopyData "byte list"
  | OtherMessage

text \<open>
  The inputs of one iteration: the clock at line 93, whether the status update of line 94
  succeeds, the clock at line 101, and the received message.
\<close>

record Env =
  now :: Time
  sendOk :: bool
  nowAfterSend :: Time
  received :: Received

text \<open>
  Lines 93-102. The status update carries \<open>clientXLogPos\<close>; when the call fails the
  program exits, otherwise the deadline moves to the clock of line 101 plus the timeout.
\<close>

definition sendStatus :: "State \<Rightarrow> Env \<Rightarrow> ('v effect, State) exec" where
  "sendStatus s e =
     (if nextStandbyMessageDeadline s < now e then
        (if sendOk e then
           ([SendStandbyStatusUpdate (clientXLogPos s), LogSentStandbyStatus],
            Inr (s\<lparr>nextStandbyMessageDeadline := nowAfterSend e + standbyMessageTimeout\<rparr>))
         else ([SendStandbyStatusUpdate (clientXLogPos s)], Inl (Fatal SendStandbyStatusUpdateFailed)))
      else ([], Inr s))"

text \<open>Lines 126-135; \<open>data\<close> is \<open>msg.Data[1:]\<close>.\<close>

definition handleKeepalive :: "'v Lib \<Rightarrow> State \<Rightarrow> byte list \<Rightarrow> ('v effect, State) exec" where
  "handleKeepalive lib s data =
     (case ParsePrimaryKeepaliveMessage lib data of
        Err \<Rightarrow> ([], Inl (Fatal ParsePrimaryKeepaliveMessageFailed))
      | Ok pkm \<Rightarrow>
          ([LogKeepalive pkm],
           Inr (if ReplyRequested pkm then s\<lparr>nextStandbyMessageDeadline := 0\<rparr> else s)))"

text \<open>Lines 159-184.\<close>

definition handleInsert :: "'v ConnInfo \<Rightarrow> State \<Rightarrow> InsertMessage \<Rightarrow> ('v effect, State) exec" where
  "handleInsert ci s m =
     (case relations s (InsertMessage.RelationID m) of
        None \<Rightarrow> ([], Inl (Fatal (UnknownRelationID (InsertMessage.RelationID m))))
      | Some rel \<Rightarrow>
          bind_out (decodeColumns ci rel 0 (TupleData.Columns (Tuple m)) Map.empty)
            (\<lambda>values. ([LogInsert (Namespace rel) (RelationName rel) values], Inr s)))"

text \<open>Lines 186-236.\<close>

definition handleUpdate :: "'v ConnInfo \<Rightarrow> State \<Rightarrow> UpdateMessage \<Rightarrow> ('v effect, State) exec" where
  "handleUpdate ci s m =
     (case relations s (UpdateMessage.RelationID m) of
        None \<Rightarrow> ([], Inl (Fatal (UnknownRelationID (UpdateMessage.RelationID m))))
      | Some rel \<Rightarrow>
          bind_out ([PrintOldTuple (UpdateMessage.OldTuple m)], Inr ())
            (\<lambda>_. bind_out
               (case UpdateMessage.OldTuple m of
                  None \<Rightarrow> ([], Inr Map.empty)
                | Some old \<Rightarrow> decodeColumns ci rel 0 (TupleData.Columns old) Map.empty)
               (\<lambda>oldValues. bind_out
                  (decodeColumns ci rel 0 (TupleData.Columns (NewTuple m)) Map.empty)
                  (\<lambda>newValues.
                     ([LogUpdate (Namespace rel) (RelationName rel) newValues oldValues], Inr s)))))"

text \<open>The type switch of lines 148-252.\<close>

definition handleLogical :: "'v ConnInfo \<Rightarrow> State \<Rightarrow> Message \<Rightarrow> ('v effect, State) exec" where
  "handleLogical ci s logicalMsg =
     (case logicalMsg of
        RelationMsg m \<Rightarrow> ([], Inr (s\<lparr>relations := (relations s)(RelationMessage.RelationID m \<mapsto> m)\<rparr>))
      | BeginMsg \<Rightarrow> ([PrintBegin], Inr s)
      | CommitMsg \<Rightarrow> ([PrintCommit], Inr s)
      | InsertMsg m \<Rightarrow> handleInsert ci s m
      | UpdateMsg m \<Rightarrow> handleUpdate ci s m
      | DeleteMsg m \<Rightarrow> ([PrintDelete m], Inr s)
      | TruncateMsg m \<Rightarrow> ([PrintTruncate m], Inr s)
      | TypeMsg \<Rightarrow> ([PrintType], Inr s)
      | OriginMsg \<Rightarrow> ([], Inr s)
      | OtherMsg \<Rightarrow> ([LogUnknownMessage], Inr s))"

text \<open>
  Lines 137-254; \<open>data\<close> is \<open>msg.Data[1:]\<close>. \<open>LSN(len(xld.WALData))\<close> converts the length
  to a \<open>uint64\<close>, and the sum wraps around.
\<close>

definition handleXLogData :: "'v Lib \<Rightarrow> State \<Rightarrow> byte list \<Rightarrow> ('v effect, State) exec" where
  "handleXLogData lib s data =
     (case ParseXLogData lib data of
        Err \<Rightarrow> ([], Inl (Fatal ParseXLogDataFailed))
      | Ok xld \<Rightarrow>
          bind_out ([LogXLogData xld], Inr ())
            (\<lambda>_. case Parse lib (WALData xld) of
               Err \<Rightarrow> ([], Inl (Fatal ParseLogicalFailed))
             | Ok logicalMsg \<Rightarrow>
                 bind_out ([LogReceive logicalMsg], Inr ())
                   (\<lambda>_. bind_out (handleLogical (NewConnInfo lib) s logicalMsg)
                      (\<lambda>s'. ([], Inr (s'\<lparr>clientXLogPos :=
                                 WALStart xld + of_nat (length (WALData xld))\<rparr>))))))"

text \<open>
  Lines 104-255. \<open>msg.Data[0]\<close> panics on an empty payload; the bytes are those of
  \<open>'k'\<close> (\<open>PrimaryKeepaliveMessageByteID\<close>) and \<open>'w'\<close> (\<open>XLogDataByteID\<close>), and the
  \<open>switch\<close> has no \<open>default\<close>.
\<close>

definition handleReceived :: "'v Lib \<Rightarrow> State \<Rightarrow> Received \<Rightarrow> ('v effect, State) exec" where
  "handleReceived lib s r =
     (case r of
        Timeout \<Rightarrow> ([], Inr s)
      | ReceiveError \<Rightarrow> ([], Inl (Fatal ReceiveMessageFailed))
      | ErrorResponse \<Rightarrow> ([LogWALError], Inl Return)
      | OtherMessage \<Rightarrow> ([LogUnexpectedMessage], Inr s)
      | CopyData d \<Rightarrow>
          (case d of
             [] \<Rightarrow> ([], Inl (Panic IndexOutOfRange))
           | b # data \<Rightarrow>
               if b = 0x6B then handleKeepalive lib s data
               else if b = 0x77 then handleXLogData lib s data
               else ([], Inr s)))"

text \<open>One iteration of the \<open>for\<close> loop of line 92.\<close>

definition step :: "'v Lib \<Rightarrow> State \<Rightarrow> Env \<Rightarrow> ('v effect, State) exec" where
  "step lib s e = bind_out (sendStatus s e) (\<lambda>s1. handleReceived lib s1 (received e))"

text \<open>
  The loop over the inputs of its first iterations; it ends early when an iteration stops
  the program.
\<close>

fun run :: "'v Lib \<Rightarrow> State \<Rightarrow> Env list \<Rightarrow> ('v effect, State) exec" where
  "run lib s [] = ([], Inr s)"
| "run lib s (e # es) = bind_out (step lib s e) (\<lambda>s'. run lib s' es)"

subsection \<open>Bootstrap (lines 32-90)\<close>

record IdentifySystemResult =
  SystemID :: string
  Timeline :: "32 word"
  XLogPos :: LSN
  DBName :: string

text \<open>
  \<open>conn.Exec(...).ReadAll()\<close> returns one \<open>*pgconn.Result\<close> per statement, each with
  its rows. A row of the view \<open>pg_replication_slots\<close> is kept as the two columns the
  specification speaks of: the slot's name and its confirmed position.
\<close>

record SlotRow =
  slot_name :: string
  confirmed_flush_lsn :: LSN

record Result =
  Rows :: "SlotRow list"

text \<open>What the server answers during bootstrap, and the clock of line 88.\<close>

record BootEnv =
  connectOk :: bool
  dropPublicationOk :: bool
  createPublicationOk :: bool
  identifySystem :: "IdentifySystemResult result"
  slotQuery :: "Result list result"
  createReplicationSlotOk :: bool
  startReplicationOk :: bool
  bootNow :: Time

text \<open>The requests bootstrap makes, in order.\<close>

datatype request =
    Connect
  | ExecDropPublication
  | ExecCreatePublication
  | IdentifySystem
  | ExecSelectSlot string
  | CreateReplicationSlot string string bool
  | StartReplication string LSN "string list"

definition outputPlugin :: string where
  "outputPlugin = ''pgoutput''"

definition slotName :: string where
  "slotName = ''pglogrepl_demo''"

text \<open>Lines 52-57; \<open>outputPlugin\<close> is the constant \<open>"pgoutput"\<close>.\<close>

definition pluginArguments :: "string list" where
  "pluginArguments =
     (if outputPlugin = ''pgoutput'' then
        [''proto_version '' @ [CHR 0x27] @ ''1'' @ [CHR 0x27],
         ''publication_names '' @ [CHR 0x27] @ ''pglogrepl_demo'' @ [CHR 0x27]]
      else if outputPlugin = ''wal2json'' then
        [[CHR 0x22] @ ''pretty-print'' @ [CHR 0x22] @ '' '' @ [CHR 0x27] @ ''true'' @ [CHR 0x27]]
      else [])"

text \<open>Lines 65-77: the slot is created when \<open>len(res) == 0\<close>.\<close>

definition ensureSlot :: "BootEnv \<Rightarrow> (request, unit) exec" where
  "ensureSlot env =
     (case slotQuery env of
        Err \<Rightarrow> ([ExecSelectSlot slotName], Inl (Panic SlotQueryFailed))
      | Ok res \<Rightarrow>
          if length res = 0 then
            (if createReplicationSlotOk env then
               ([ExecSelectSlot slotName, CreateReplicationSlot slotName outputPlugin False], Inr ())
             else
               ([ExecSelectSlot slotName, CreateReplicationSlot slotName outputPlugin False],
                Inl (Fatal CreateReplicationSlotFailed)))
          else ([ExecSelectSlot slotName], Inr ()))"

text \<open>Lines 79-90: start of replication and the loop's initial state.\<close>

definition startStream :: "BootEnv \<Rightarrow> IdentifySystemResult \<Rightarrow> (request, State) exec" where
  "startStream env sysident =
     (if startReplicationOk env then
        ([StartReplication slotName (XLogPos sysident) pluginArguments],
         Inr \<lparr>clientXLogPos = XLogPos sysident,
              nextStandbyMessageDeadline = bootNow env + standbyMessageTimeout,
              relations = Map.empty\<rparr>)
      else
        ([StartReplication slotName (XLogPos sysident) pluginArguments],
         Inl (Fatal StartReplicationFailed)))"

definition bootstrap :: "BootEnv \<Rightarrow> (request, State) exec" where
  "bootstrap env =
     (if \<not> connectOk env then ([Connect], Inl (Fatal ConnectFailed))
      else if \<not> dropPublicationOk env then
        ([Connect, ExecDropPublication], Inl (Fatal DropPublicationFailed))
      else if \<not> createPublicationOk env then
        ([Connect, ExecDropPublication, ExecCreatePublication], Inl (Fatal CreatePublicationFailed))
      else
        (case identifySystem env of
           Err \<Rightarrow>
             ([Connect, ExecDropPublication, ExecCreatePublication, IdentifySystem],
              Inl (Fatal IdentifySystemFailed))
         | Ok sysident \<Rightarrow>
             bind_out ([Connect, ExecDropPublication, ExecCreatePublication, IdentifySystem], Inr ())
               (\<lambda>_. bind_out (ensureSlot env) (\<lambda>_. startStream env sysident))))"

subsection \<open>The status-update rule in the specification's words\<close>

text \<open>
  The specification states when a status update is due in terms of the session's history:
  the interval has elapsed since the last update was sent (since the start of the session
  when none was), or the peer has asked for a reply since. \<open>Tracker\<close> records that
  history; it is not part of the program. \<open>observe\<close> updates it from what an iteration
  did, and \<open>tracks\<close> relates it to the deadline the program keeps.
\<close>

record Tracker =
  lastSent :: Time
  replyRequested :: bool

text \<open>
  The specification's rule: an update is due when the interval has elapsed since the last
  one, the instant at which exactly the interval has passed included (its
  \<open>dueForStatusUpdate\<close> is \<open>now >= nextDeadline\<close>), or when a reply was requested.
\<close>

definition dueForStatusUpdate :: "Tracker \<Rightarrow> Time \<Rightarrow> bool" where
  "dueForStatusUpdate g t = (lastSent g + standbyMessageTimeout \<le> t \<or> replyRequested g)"

text \<open>The same rule with the instant of exactly the interval excluded.\<close>

definition overdue :: "Tracker \<Rightarrow> Time \<Rightarrow> bool" where
  "overdue g t = (lastSent g + standbyMessageTimeout < t \<or> replyRequested g)"

fun isSend :: "'v effect \<Rightarrow> bool" where
  "isSend (SendStandbyStatusUpdate p) = True"
| "isSend _ = False"

fun isReplyRequest :: "'v effect \<Rightarrow> bool" where
  "isReplyRequest (LogKeepalive pkm) = ReplyRequested pkm"
| "isReplyRequest _ = False"

definition statusSent :: "'v effect list \<Rightarrow> bool" where
  "statusSent outs = list_ex isSend outs"

definition observe :: "Tracker \<Rightarrow> Env \<Rightarrow> 'v effect list \<Rightarrow> Tracker" where
  "observe g e outs =
     (let g1 = (if statusSent outs then \<lparr>lastSent = nowAfterSend e, replyRequested = False\<rparr> else g)
      in if list_ex isReplyRequest outs then g1\<lparr>replyRequested := True\<rparr> else g1)"

definition tracks :: "State \<Rightarrow> Tracker \<Rightarrow> bool" where
  "tracks s g =
     (nextStandbyMessageDeadline s =
        (if replyRequested g then 0 else lastSent g + standbyMessageTimeout))"

text \<open>
  \<open>conforms lib s g es\<close> replays the loop from the state \<open>s\<close> over the inputs \<open>es\<close>
  with the history \<open>g\<close> beside it, and holds when in every iteration a status update is
  sent exactly when the history says one is overdue.
\<close>

fun conforms :: "'v Lib \<Rightarrow> State \<Rightarrow> Tracker \<Rightarrow> Env list \<Rightarrow> bool" where
  "conforms lib s g [] = True"
| "conforms lib s g (e # es) =
     ((statusSent (fst (step lib s e)) \<longleftrightarrow> overdue g (now e)) \<and>
      (case snd (step lib s e) of
         Inl st \<Rightarrow> True
       | Inr s' \<Rightarrow> conforms lib s' (observe g e (fst (step lib s e))) es))"

text \<open>An effect that is neither a status update nor a keepalive asking for a reply.\<close>

definition quiet :: "'v effect \<Rightarrow> bool" where
  "quiet x = (\<not> isSend x \<and> \<not> isReplyRequest x)"

text \<open>
  The received message is a keepalive that parses and has the reply-requested flag set
  (lines 125-135).
\<close>

definition asksReply :: "'v Lib \<Rightarrow> Received \<Rightarrow> bool" where
  "asksReply lib r =
     (case r of
        CopyData d \<Rightarrow>
          (case d of
             [] \<Rightarrow> False
           | b # data \<Rightarrow>
               b = 0x6B \<and>
               (case ParsePrimaryKeepaliveMessage lib data of
                  Err \<Rightarrow> False | Ok pkm \<Rightarrow> ReplyRequested pkm))
      | _ \<Rightarrow> False)"


subsection \<open>Text columns that fail to decode\<close>

text \<open>
  Column \<open>i\<close> of a tuple is a text column, lies within the cached schema, and
  \<open>decodeTextColumnData\<close> returns an error for it.
\<close>

definition textDecodeFails ::
  "'v ConnInfo \<Rightarrow> RelationMessage \<Rightarrow> TupleDataColumn list \<Rightarrow> nat \<Rightarrow> bool" where
  "textDecodeFails ci rel cols i =
     (i < length cols \<and> i < length (RelationMessage.Columns rel) \<and>
      TupleDataColumn.DataType (cols ! i) = 0x74 \<and>
      decodeTextColumnData ci (Data (cols ! i))
        (RelationMessageColumn.DataType (RelationMessage.Columns rel ! i)) = Err)"

subsection \<open>What the loop reads from a row-change message\<close>

text \<open>
  The relation ID an Insert or Update message is looked up under (lines 160, 188), and the
  tuples whose columns the per-column loops decode for it, in the order of the loops: the
  tuple of an Insert; the old tuple of an Update when it is not \<open>nil\<close>, then its new tuple.
\<close>

fun relationOf :: "Message \<Rightarrow> 32 word option" where
  "relationOf (InsertMsg m) = Some (InsertMessage.RelationID m)"
| "relationOf (UpdateMsg m) = Some (UpdateMessage.RelationID m)"
| "relationOf _ = None"

fun tuplesOf :: "Message \<Rightarrow> TupleDataColumn list list" where
  "tuplesOf (InsertMsg m) = [TupleData.Columns (Tuple m)]"
| "tuplesOf (UpdateMsg m) =
     (case UpdateMessage.OldTuple m of None \<Rightarrow> [] | Some old \<Rightarrow> [TupleData.Columns old])
       @ [TupleData.Columns (NewTuple m)]"
| "tuplesOf _ = []"

subsection \<open>Sample inputs\<close>

text \<open>
  Concrete instances of the library parameters and of the loop's inputs, on which the
  theorems below are exercised. \<open>sampleConnInfo\<close> registers a decimal decoder for OID 23
  (\<open>int4\<close>) and falls back to a decoder that keeps the raw text; \<open>constLib k x m\<close> is a
  library whose three parsers answer \<open>k\<close>, \<open>x\<close> and \<open>m\<close> on every input.
\<close>

datatype sample_value = IntV int | TextV "byte list"

definition int4Text :: "sample_value TextDecoder" where
  "int4Text src =
     (if src \<noteq> [] \<and> list_all (\<lambda>b. 0x30 \<le> b \<and> b \<le> 0x39) src
      then Ok (Some (IntV (foldl (\<lambda>a b. 10 * a + (uint b - 48)) 0 src)))
      else Err)"

definition genericText :: "sample_value TextDecoder" where
  "genericText src = Ok (Some (TextV src))"

definition sampleConnInfo :: "sample_value ConnInfo" where
  "sampleConnInfo =
     \<lparr>DataTypeForOID = (\<lambda>oid. if oid = 23 then Some (Some int4Text) else None),
      GenericText = genericText\<rparr>"

definition constLib ::
  "PrimaryKeepaliveMessage result \<Rightarrow> XLogData result \<Rightarrow> Message result \<Rightarrow> sample_value Lib" where
  "constLib k x m =
     \<lparr>ParsePrimaryKeepaliveMessage = (\<lambda>_. k), ParseXLogData = (\<lambda>_. x), Parse = (\<lambda>_. m),
      NewConnInfo = sampleConnInfo\<rparr>"

definition trial :: RelationMessage where
  "trial =
     \<lparr>RelationMessage.RelationID = 1, Namespace = ''public'', RelationName = ''trial'',
      RelationMessage.Columns =
        [\<lparr>Name = ''id'', RelationMessageColumn.DataType = 23\<rparr>,
         \<lparr>Name = ''name'', RelationMessageColumn.DataType = 25\<rparr>]\<rparr>"

definition state0 :: State where
  "state0 =
     \<lparr>clientXLogPos = 100, nextStandbyMessageDeadline = 10000000000, relations = Map.empty\<rparr>"

definition state1 :: State where
  "state1 = state0\<lparr>relations := [1 \<mapsto> trial]\<rparr>"

definition envChunk :: Env where
  "envChunk = \<lparr>now = 1, sendOk = True, nowAfterSend = 1, received = CopyData [0x77]\<rparr>"

definition envKeepalive :: Env where
  "envKeepalive = \<lparr>now = 1, sendOk = True, nowAfterSend = 1, received = CopyData [0x6B]\<rparr>"

definition chunk :: "LSN \<Rightarrow> byte list \<Rightarrow> XLogData" where
  "chunk start payload =
     \<lparr>WALStart = start, XLogData.ServerWALEnd = start, XLogData.ServerTime = 0,
      WALData = payload\<rparr>"

definition keepalive :: "bool \<Rightarrow> PrimaryKeepaliveMessage" where
  "keepalive reply =
     \<lparr>PrimaryKeepaliveMessage.ServerWALEnd = 0, PrimaryKeepaliveMessage.ServerTime = 0,
      ReplyRequested = reply\<rparr>"

definition column :: "byte \<Rightarrow> byte list \<Rightarrow> TupleDataColumn" where
  "column tag src = \<lparr>TupleDataColumn.DataType = tag, Data = src\<rparr>"

definition insertOf :: "32 word \<Rightarrow> TupleDataColumn list \<Rightarrow> InsertMessage" where
  "insertOf rid cols = \<lparr>InsertMessage.RelationID = rid, Tuple = \<lparr>TupleData.Columns = cols\<rparr>\<rparr>"

definition deleteOf :: "32 word \<Rightarrow> DeleteMessage" where
  "deleteOf rid = \<lparr>DeleteMessage.RelationID = rid, DeleteMessage.OldTuple = None\<rparr>"

definition twins :: RelationMessage where
  "twins =
     \<lparr>RelationMessage.RelationID = 2, Namespace = ''public'', RelationName = ''twins'',
      RelationMessage.Columns =
        [\<lparr>Name = ''a'', RelationMessageColumn.DataType = 25\<rparr>,
         \<lparr>Name = ''a'', RelationMessageColumn.DataType = 25\<rparr>]\<rparr>"

definition state2 :: State where
  "state2 = state0\<lparr>relations := [2 \<mapsto> twins]\<rparr>"

definition updateOf ::
  "32 word \<Rightarrow> TupleDataColumn list option \<Rightarrow> TupleDataColumn list \<Rightarrow> UpdateMessage" where
  "updateOf rid old new =
     \<lparr>UpdateMessage.RelationID = rid,
      UpdateMessage.OldTuple = map_option (\<lambda>cols. \<lparr>TupleData.Columns = cols\<rparr>) old,
      NewTuple = \<lparr>TupleData.Columns = new\<rparr>\<rparr>"

definition sysident0 :: IdentifySystemResult where
  "sysident0 = \<lparr>SystemID = ''1'', Timeline = 1, XLogPos = 100, DBName = ''postgres''\<rparr>"

definition bootEnvNew :: BootEnv where
  "bootEnvNew =
     \<lparr>connectOk = True, dropPublicationOk = True, createPublicationOk = True,
      identifySystem = Ok sysident0, slotQuery = Ok [],
      createReplicationSlotOk = True, startReplicationOk = True, bootNow = 1000\<rparr>"

definition bootEnvExisting :: BootEnv where
  "bootEnvExisting =
     \<lparr>connectOk = True, dropPublicationOk = True, createPublicationOk = True,
      identifySystem = Ok sysident0,
      slotQuery = Ok [\<lparr>Rows = [\<lparr>slot_name = slotName, confirmed_flush_lsn = 5\<rparr>]\<rparr>],
      createReplicationSlotOk = True, startReplicationOk = True, bootNow = 1000\<rparr>"

definition envAt :: "Time \<Rightarrow> Received \<Rightarrow> Env" where
  "envAt t r = \<lparr>now = t, sendOk = True, nowAfterSend = t + 1, received = r\<rparr>"

lemmas sample_defs = column_def insertOf_def deleteOf_def constLib_def state0_def state1_def envChunk_def envKeepalive_def chunk_def
  keepalive_def trial_def sampleConnInfo_def genericText_def int4Text_def

lemmas step_defs = step_def sendStatus_def handleReceived_def handleXLogData_def
  handleKeepalive_def handleLogical_def handleInsert_def handleUpdate_def bind_out_def
  decodeColumn_def decodeTextColumnData_def

section \<open>Properties\<close>

subsection \<open>Sequencing\<close>

lemma bind_out_stop: "snd m = Inl st \<Longrightarrow> bind_out m f = (fst m, Inl st)"
  by (cases m) (simp add: bind_out_def)

lemma bind_out_Inr: "bind_out (o1, Inr a) f = (o1 @ fst (f a), snd (f a))"
  by (simp add: bind_out_def split: prod.splits)

lemma bind_out_Inl: "bind_out (o1, Inl st) f = (o1, Inl st)"
  by (simp add: bind_out_def)

lemma snd_bind_out_Inr:
  "snd (bind_out m f) = Inr b \<longleftrightarrow> (\<exists>a. snd m = Inr a \<and> snd (f a) = Inr b)"
  by (cases m; cases "snd m") (auto simp: bind_out_def split: prod.splits)

subsection \<open>What an iteration that continues went through\<close>

lemma sendStatus_Inr:
  "snd (sendStatus s e) = Inr s1 \<Longrightarrow>
     s1 = s\<lparr>nextStandbyMessageDeadline := nextStandbyMessageDeadline s1\<rparr>"
  by (auto simp: sendStatus_def split: if_splits)

lemma handleXLogData_Inr:
  assumes "snd (handleXLogData lib s data) = Inr s'"
  obtains xld m s2 where "ParseXLogData lib data = Ok xld" and "Parse lib (WALData xld) = Ok m"
    and "snd (handleLogical (NewConnInfo lib) s m) = Inr s2"
    and "s' = s2\<lparr>clientXLogPos := WALStart xld + of_nat (length (WALData xld))\<rparr>"
proof (cases "ParseXLogData lib data")
  case Err
  with assms show ?thesis by (simp add: handleXLogData_def)
next
  case (Ok xld)
  show ?thesis
  proof (cases "Parse lib (WALData xld)")
    case Err
    with Ok assms show ?thesis by (simp add: handleXLogData_def bind_out_def)
  next
    case (Ok m)
    with \<open>ParseXLogData lib data = Ok xld\<close> assms that show ?thesis
      by (auto simp: handleXLogData_def snd_bind_out_Inr)
  qed
qed

lemma step_Inr:
  fixes lib :: "'v Lib"
  assumes "snd (step lib s e) = Inr s'"
  obtains s1 where "snd (sendStatus s e :: ('v effect, State) exec) = Inr s1"
    and "snd (handleReceived lib s1 (received e)) = Inr s'"
  using assms by (auto simp: step_def snd_bind_out_Inr)

lemma handleKeepalive_Inr:
  "snd (handleKeepalive lib s data) = Inr s' \<Longrightarrow>
     s' = s\<lparr>nextStandbyMessageDeadline := nextStandbyMessageDeadline s'\<rparr>"
  by (auto simp: handleKeepalive_def split: result.splits if_splits)

lemma handleReceived_frame:
  assumes "snd (handleReceived lib s r) = Inr s'" and "\<forall>data. r \<noteq> CopyData (0x77 # data)"
  shows "s' = s\<lparr>nextStandbyMessageDeadline := nextStandbyMessageDeadline s'\<rparr>"
proof (cases r)
  case (CopyData d)
  show ?thesis
  proof (cases d)
    case Nil
    with CopyData assms show ?thesis by (simp add: handleReceived_def)
  next
    case (Cons b data)
    with CopyData assms have "b \<noteq> 0x77" by auto
    with Cons CopyData assms show ?thesis
      by (auto simp: handleReceived_def dest: handleKeepalive_Inr split: if_splits)
  qed
qed (use assms in \<open>auto simp: handleReceived_def\<close>)

subsection \<open>The confirmed position\<close>

text \<open>
  Claim C1, as amended. The claim says that processing a chunk sets the confirmed position
  to the maximum of its previous value and \<open>walStart + len(payload)\<close>. The program takes
  no maximum: after an iteration that processed an XLogData chunk, \<open>clientXLogPos\<close> is
  \<open>WALStart + len(WALData)\<close> (modulo \<open>2^64\<close>), whatever it was before.
\<close>

theorem chunk_sets_position:
  assumes recv: "received e = CopyData (0x77 # data)"
    and xld: "ParseXLogData lib data = Ok xld"
    and cont: "snd (step lib s e) = Inr s'"
  shows "clientXLogPos s' = WALStart xld + of_nat (length (WALData xld))"
proof -
  from cont obtain s1 where "snd (handleReceived lib s1 (received e)) = Inr s'"
    by (rule step_Inr)
  with recv have "snd (handleXLogData lib s1 data) = Inr s'"
    by (simp add: handleReceived_def)
  then show ?thesis using xld by (elim handleXLogData_Inr) simp
qed

theorem chunk_sets_position_witness:
  "received envChunk = CopyData (0x77 # [])
   \<and> ParseXLogData (constLib Err (Ok (chunk 10 [0x42])) (Ok BeginMsg)) [] = Ok (chunk 10 [0x42])
   \<and> snd (step (constLib Err (Ok (chunk 10 [0x42])) (Ok BeginMsg)) state0 envChunk)
       = Inr (state0\<lparr>clientXLogPos := 11\<rparr>)
   \<and> clientXLogPos (state0\<lparr>clientXLogPos := 11\<rparr>) = 10 + of_nat (length [0x42 :: byte])"
proof -
  have r: "received envChunk = CopyData (0x77 # [])" by (simp add: envChunk_def)
  have p: "ParseXLogData (constLib Err (Ok (chunk 10 [0x42])) (Ok BeginMsg)) [] = Ok (chunk 10 [0x42])"
    by (simp add: constLib_def)
  have s: "snd (step (constLib Err (Ok (chunk 10 [0x42])) (Ok BeginMsg)) state0 envChunk)
       = Inr (state0\<lparr>clientXLogPos := 11\<rparr>)"
    by (simp add: sample_defs step_defs)
  from chunk_sets_position [OF r p s] r p s show ?thesis by (simp add: chunk_def)
qed

text \<open>
  The claim C1 as stated fails: with the confirmed position at 100, a chunk that starts at
  10 and carries one byte moves the position back to 11, which is not the maximum.
\<close>

theorem position_regresses:
  "snd (step (constLib Err (Ok (chunk 10 [0x42])) (Ok BeginMsg)) state0 envChunk)
     = Inr (state0\<lparr>clientXLogPos := 11\<rparr>)
   \<and> clientXLogPos (state0\<lparr>clientXLogPos := 11\<rparr>) < clientXLogPos state0
   \<and> clientXLogPos (state0\<lparr>clientXLogPos := 11\<rparr>)
       \<noteq> max (clientXLogPos state0) (10 + of_nat (length [0x42 :: byte]))"
  by (simp add: sample_defs step_defs)

text \<open>
  Claim C9. An iteration that receives a primary keepalive message and continues leaves
  every field of the session state except the next status-update deadline as it was, with
  or without the reply-requested flag; and an iteration after which the confirmed position
  differs from before has processed an XLogData chunk.
\<close>

theorem keepalive_frame:
  fixes lib :: "'v Lib"
  assumes "snd (step lib s e) = Inr s'"
  shows "(\<forall>data. received e = CopyData (0x6B # data) \<longrightarrow>
            s' = s\<lparr>nextStandbyMessageDeadline := nextStandbyMessageDeadline s'\<rparr>)
       \<and> (clientXLogPos s' \<noteq> clientXLogPos s \<longrightarrow> (\<exists>data. received e = CopyData (0x77 # data)))"
proof -
  from assms obtain s1 where s1: "snd (sendStatus s e :: ('v effect, State) exec) = Inr s1"
    and r: "snd (handleReceived lib s1 (received e)) = Inr s'"
    by (rule step_Inr)
  from s1 have eq1: "s1 = s\<lparr>nextStandbyMessageDeadline := nextStandbyMessageDeadline s1\<rparr>"
    by (rule sendStatus_Inr)
  have frame: "s' = s\<lparr>nextStandbyMessageDeadline := nextStandbyMessageDeadline s'\<rparr>"
    if "\<forall>data. received e \<noteq> CopyData (0x77 # data)"
  proof -
    from r that have "s' = s1\<lparr>nextStandbyMessageDeadline := nextStandbyMessageDeadline s'\<rparr>"
      by (rule handleReceived_frame)
    with eq1 show ?thesis by (metis State.update_convs(2) State.surjective)
  qed
  have "s' = s\<lparr>nextStandbyMessageDeadline := nextStandbyMessageDeadline s'\<rparr>"
    if "received e = CopyData (0x6B # data)" for data
    using that by (intro frame) simp
  moreover have "\<exists>data. received e = CopyData (0x77 # data)" if "clientXLogPos s' \<noteq> clientXLogPos s"
  proof (rule ccontr)
    assume "\<not> ?thesis"
    then have "s' = s\<lparr>nextStandbyMessageDeadline := nextStandbyMessageDeadline s'\<rparr>"
      by (intro frame) simp
    then have "clientXLogPos s' = clientXLogPos s"
      by (metis State.select_convs(1) State.surjective State.update_convs(2))
    with that show False by simp
  qed
  ultimately show ?thesis by blast
qed

theorem keepalive_frame_witness:
  "snd (step (constLib (Ok (keepalive True)) Err Err) state0 envKeepalive)
     = Inr (state0\<lparr>nextStandbyMessageDeadline := 0\<rparr>)
   \<and> received envKeepalive = CopyData (0x6B # [])
   \<and> state0\<lparr>nextStandbyMessageDeadline := 0\<rparr>
       = state0\<lparr>nextStandbyMessageDeadline :=
           nextStandbyMessageDeadline (state0\<lparr>nextStandbyMessageDeadline := 0\<rparr>)\<rparr>
   \<and> snd (step (constLib Err (Ok (chunk 10 [0x42])) (Ok BeginMsg)) state0 envChunk)
       = Inr (state0\<lparr>clientXLogPos := 11\<rparr>)
   \<and> clientXLogPos (state0\<lparr>clientXLogPos := 11\<rparr>) \<noteq> clientXLogPos state0
   \<and> received envChunk = CopyData (0x77 # [])"
proof -
  have k: "snd (step (constLib (Ok (keepalive True)) Err Err) state0 envKeepalive)
     = Inr (state0\<lparr>nextStandbyMessageDeadline := 0\<rparr>)"
    by (simp add: sample_defs step_defs)
  have c: "snd (step (constLib Err (Ok (chunk 10 [0x42])) (Ok BeginMsg)) state0 envChunk)
       = Inr (state0\<lparr>clientXLogPos := 11\<rparr>)"
    by (simp add: sample_defs step_defs)
  have rk: "received envKeepalive = CopyData (0x6B # [])" by (simp add: envKeepalive_def)
  have rc: "received envChunk = CopyData (0x77 # [])" by (simp add: envChunk_def)
  have ne: "clientXLogPos (state0\<lparr>clientXLogPos := 11\<rparr>) \<noteq> clientXLogPos state0"
    by (simp add: state0_def)
  from keepalive_frame [OF k] rk
  have "state0\<lparr>nextStandbyMessageDeadline := 0\<rparr>
       = state0\<lparr>nextStandbyMessageDeadline :=
           nextStandbyMessageDeadline (state0\<lparr>nextStandbyMessageDeadline := 0\<rparr>)\<rparr>"
    by blast
  with k c rk rc ne show ?thesis by blast
qed

subsection \<open>Chunks, message by message\<close>

lemma step_chunk:
  fixes lib :: "'v Lib"
  assumes recv: "received e = CopyData (0x77 # data)"
    and xld: "ParseXLogData lib data = Ok xld"
    and send: "sendStatus s e = (o1 :: 'v effect list, Inr s1)"
  shows "step lib s e =
     (case Parse lib (WALData xld) of
        Err \<Rightarrow> (o1 @ [LogXLogData xld], Inl (Fatal ParseLogicalFailed))
      | Ok m \<Rightarrow>
          (o1 @ [LogXLogData xld, LogReceive m] @ fst (handleLogical (NewConnInfo lib) s1 m),
           case snd (handleLogical (NewConnInfo lib) s1 m) of
             Inl st \<Rightarrow> Inl st
           | Inr s2 \<Rightarrow> Inr (s2\<lparr>clientXLogPos := WALStart xld + of_nat (length (WALData xld))\<rparr>)))"
  using assms
  by (simp add: step_def handleReceived_def handleXLogData_def bind_out_def
      split: result.splits prod.splits sum.splits)

lemma run_stop: "snd (step lib s e) = Inl st \<Longrightarrow> run lib s (e # es) = step lib s e"
  by (cases "step lib s e") (simp add: bind_out_def)

lemma sendStatus_relations:
  "sendStatus s e = (o1, Inr s1) \<Longrightarrow> relations s1 = relations s"
  by (auto simp: sendStatus_def split: if_splits)

lemma sendStatus_state0: "sendStatus state0 envChunk = ([], Inr state0)"
  by (simp add: sendStatus_def state0_def envChunk_def)

lemma sendStatus_state1: "sendStatus state1 envChunk = ([], Inr state1)"
  by (simp add: sendStatus_def state1_def state0_def envChunk_def)

text \<open>
  Claim C10. An iteration that receives a chunk holding a Delete or a Truncate message
  prints the message and continues with the position advanced, whatever the relation
  cache holds: the cache does not occur in the result. The unknown-relation fatal error
  arises only for Insert and Update messages. (Here the status update, when one is due,
  has succeeded: \<open>sendStatus\<close> returned \<open>s1\<close>.)
\<close>

theorem delete_truncate_ignore_cache:
  fixes lib :: "'v Lib"
  assumes recv: "received e = CopyData (0x77 # data)"
    and xld: "ParseXLogData lib data = Ok xld"
    and send: "sendStatus s e = (o1 :: 'v effect list, Inr s1)"
  shows "(Parse lib (WALData xld) = Ok (DeleteMsg d) \<longrightarrow>
            step lib s e =
              (o1 @ [LogXLogData xld, LogReceive (DeleteMsg d), PrintDelete d],
               Inr (s1\<lparr>clientXLogPos := WALStart xld + of_nat (length (WALData xld))\<rparr>)))
       \<and> (Parse lib (WALData xld) = Ok (TruncateMsg t) \<longrightarrow>
            step lib s e =
              (o1 @ [LogXLogData xld, LogReceive (TruncateMsg t), PrintTruncate t],
               Inr (s1\<lparr>clientXLogPos := WALStart xld + of_nat (length (WALData xld))\<rparr>)))
       \<and> (\<forall>m r. snd (handleLogical (NewConnInfo lib) s1 m) = Inl (Fatal (UnknownRelationID r)) \<longrightarrow>
            (\<exists>i. m = InsertMsg i) \<or> (\<exists>u. m = UpdateMsg u))"
proof (intro conjI impI allI)
  assume "Parse lib (WALData xld) = Ok (DeleteMsg d)"
  then show "step lib s e =
              (o1 @ [LogXLogData xld, LogReceive (DeleteMsg d), PrintDelete d],
               Inr (s1\<lparr>clientXLogPos := WALStart xld + of_nat (length (WALData xld))\<rparr>))"
    by (simp add: step_chunk [OF recv xld send] handleLogical_def)
next
  assume "Parse lib (WALData xld) = Ok (TruncateMsg t)"
  then show "step lib s e =
              (o1 @ [LogXLogData xld, LogReceive (TruncateMsg t), PrintTruncate t],
               Inr (s1\<lparr>clientXLogPos := WALStart xld + of_nat (length (WALData xld))\<rparr>))"
    by (simp add: step_chunk [OF recv xld send] handleLogical_def)
next
  fix m r
  assume "snd (handleLogical (NewConnInfo lib) s1 m) = Inl (Fatal (UnknownRelationID r))"
  then show "(\<exists>i. m = InsertMsg i) \<or> (\<exists>u. m = UpdateMsg u)"
    by (cases m) (simp_all add: handleLogical_def)
qed

theorem delete_truncate_ignore_cache_witness:
  "received envChunk = CopyData (0x77 # [])
   \<and> relations state0 7 = None
   \<and> step (constLib Err (Ok (chunk 200 [0x44])) (Ok (DeleteMsg (deleteOf 7)))) state0 envChunk
      = ([LogXLogData (chunk 200 [0x44]), LogReceive (DeleteMsg (deleteOf 7)),
          PrintDelete (deleteOf 7)],
         Inr (state0\<lparr>clientXLogPos := 201\<rparr>))
   \<and> snd (handleLogical sampleConnInfo state0 (InsertMsg (insertOf 7 [])))
      = Inl (Fatal (UnknownRelationID 7))"
proof -
  let ?lib = "constLib Err (Ok (chunk 200 [0x44])) (Ok (DeleteMsg (deleteOf 7)))"
  have r: "received envChunk = CopyData (0x77 # [])" by (simp add: envChunk_def)
  have x: "ParseXLogData ?lib [] = Ok (chunk 200 [0x44])" by (simp add: constLib_def)
  have p: "Parse ?lib (WALData (chunk 200 [0x44])) = Ok (DeleteMsg (deleteOf 7))"
    by (simp add: constLib_def)
  have u: "snd (handleLogical sampleConnInfo state0 (InsertMsg (insertOf 7 [])))
      = Inl (Fatal (UnknownRelationID 7))"
    by (simp add: handleLogical_def handleInsert_def state0_def insertOf_def)
  have n: "relations state0 7 = None" by (simp add: state0_def)
  from delete_truncate_ignore_cache [OF r x sendStatus_state0, of "deleteOf 7"] p r u n
  show ?thesis by (simp add: chunk_def)
qed

text \<open>
  Claim C7. An iteration that receives a chunk holding an Insert message whose relation
  ID has no entry in the relation cache ends the program with the fatal error
  \<open>unknown relation ID\<close>; the loop runs no further iteration, and the iteration prints no
  \<open>INSERT INTO\<close> line: apart from the status update, it prints the chunk and the message
  type only.
\<close>

theorem insert_unknown_relation:
  fixes lib :: "'v Lib"
  assumes recv: "received e = CopyData (0x77 # data)"
    and xld: "ParseXLogData lib data = Ok xld"
    and parse: "Parse lib (WALData xld) = Ok (InsertMsg m)"
    and unknown: "relations s (InsertMessage.RelationID m) = None"
    and send: "sendStatus s e = (o1 :: 'v effect list, Inr s1)"
  shows "step lib s e =
           (o1 @ [LogXLogData xld, LogReceive (InsertMsg m)],
            Inl (Fatal (UnknownRelationID (InsertMessage.RelationID m))))
       \<and> run lib s (e # es) = step lib s e
       \<and> (\<forall>ns n v. LogInsert ns n v \<notin> set (fst (step lib s e)))"
proof -
  from send unknown have "relations s1 (InsertMessage.RelationID m) = None"
    by (simp add: sendStatus_relations)
  then have st: "step lib s e =
           (o1 @ [LogXLogData xld, LogReceive (InsertMsg m)],
            Inl (Fatal (UnknownRelationID (InsertMessage.RelationID m))))"
    using parse by (simp add: step_chunk [OF recv xld send] handleLogical_def handleInsert_def)
  then have "run lib s (e # es) = step lib s e"
    by (intro run_stop) simp
  moreover from send have "\<forall>ns n v. LogInsert ns n v \<notin> set o1"
    by (auto simp: sendStatus_def split: if_splits)
  ultimately show ?thesis using st by auto
qed

theorem insert_unknown_relation_witness:
  "received envChunk = CopyData (0x77 # [])
   \<and> relations state0 (InsertMessage.RelationID (insertOf 7 [column 0x6E []])) = None
   \<and> run (constLib Err (Ok (chunk 200 [0x49])) (Ok (InsertMsg (insertOf 7 [column 0x6E []]))))
        state0 [envChunk, envChunk]
      = ([LogXLogData (chunk 200 [0x49]), LogReceive (InsertMsg (insertOf 7 [column 0x6E []]))],
         Inl (Fatal (UnknownRelationID 7)))"
proof -
  let ?m = "insertOf 7 [column 0x6E []]"
  let ?lib = "constLib Err (Ok (chunk 200 [0x49])) (Ok (InsertMsg ?m))"
  have r: "received envChunk = CopyData (0x77 # [])" by (simp add: envChunk_def)
  have x: "ParseXLogData ?lib [] = Ok (chunk 200 [0x49])" by (simp add: constLib_def)
  have p: "Parse ?lib (WALData (chunk 200 [0x49])) = Ok (InsertMsg ?m)"
    by (simp add: constLib_def)
  have u: "relations state0 (InsertMessage.RelationID ?m) = None"
    by (simp add: state0_def)
  have i: "InsertMessage.RelationID ?m = 7" by (simp add: insertOf_def)
  from insert_unknown_relation [OF r x p u sendStatus_state0, of "[envChunk]"] r u i
  show ?thesis by (simp del: run.simps)
qed

text \<open>
  Claim C4, as amended. The claim says that a payload the decoder rejects as an unknown
  message type is skipped and logged. In the program every error of \<open>pglogrepl.Parse\<close>
  is fatal (line 145): the iteration prints the chunk and exits, and the loop runs no
  further iteration. The \<open>default\<close> arm of line 250 is reached only by a message that was
  decoded without error and whose type is none of the nine the switch names; that
  message is logged, the position is advanced and the loop continues.
\<close>

theorem parse_error_fatal:
  fixes lib :: "'v Lib"
  assumes recv: "received e = CopyData (0x77 # data)"
    and xld: "ParseXLogData lib data = Ok xld"
    and send: "sendStatus s e = (o1 :: 'v effect list, Inr s1)"
  shows "(Parse lib (WALData xld) = Err \<longrightarrow>
            step lib s e = (o1 @ [LogXLogData xld], Inl (Fatal ParseLogicalFailed))
            \<and> run lib s (e # es) = step lib s e)
       \<and> (Parse lib (WALData xld) = Ok OtherMsg \<longrightarrow>
            step lib s e =
              (o1 @ [LogXLogData xld, LogReceive OtherMsg, LogUnknownMessage],
               Inr (s1\<lparr>clientXLogPos := WALStart xld + of_nat (length (WALData xld))\<rparr>)))"
proof (intro conjI impI)
  assume err: "Parse lib (WALData xld) = Err"
  then show st: "step lib s e = (o1 @ [LogXLogData xld], Inl (Fatal ParseLogicalFailed))"
    by (simp add: step_chunk [OF recv xld send])
  then show "run lib s (e # es) = step lib s e"
    by (intro run_stop) simp
next
  assume "Parse lib (WALData xld) = Ok OtherMsg"
  then show "step lib s e =
              (o1 @ [LogXLogData xld, LogReceive OtherMsg, LogUnknownMessage],
               Inr (s1\<lparr>clientXLogPos := WALStart xld + of_nat (length (WALData xld))\<rparr>))"
    by (simp add: step_chunk [OF recv xld send] handleLogical_def)
qed

theorem parse_error_fatal_witness:
  "received envChunk = CopyData (0x77 # [])
   \<and> Parse (constLib Err (Ok (chunk 200 [0x5A])) Err) (WALData (chunk 200 [0x5A])) = Err
   \<and> run (constLib Err (Ok (chunk 200 [0x5A])) Err) state0 [envChunk, envChunk]
      = ([LogXLogData (chunk 200 [0x5A])], Inl (Fatal ParseLogicalFailed))
   \<and> Parse (constLib Err (Ok (chunk 200 [0x5A])) (Ok OtherMsg)) (WALData (chunk 200 [0x5A]))
      = Ok OtherMsg
   \<and> step (constLib Err (Ok (chunk 200 [0x5A])) (Ok OtherMsg)) state0 envChunk
      = ([LogXLogData (chunk 200 [0x5A]), LogReceive OtherMsg, LogUnknownMessage],
         Inr (state0\<lparr>clientXLogPos := 201\<rparr>))"
proof -
  let ?bad = "constLib Err (Ok (chunk 200 [0x5A])) Err"
  let ?other = "constLib Err (Ok (chunk 200 [0x5A])) (Ok OtherMsg)"
  have r: "received envChunk = CopyData (0x77 # [])" by (simp add: envChunk_def)
  have xb: "ParseXLogData ?bad [] = Ok (chunk 200 [0x5A])" by (simp add: constLib_def)
  have xo: "ParseXLogData ?other [] = Ok (chunk 200 [0x5A])" by (simp add: constLib_def)
  have pb: "Parse ?bad (WALData (chunk 200 [0x5A])) = Err" by (simp add: constLib_def)
  have po: "Parse ?other (WALData (chunk 200 [0x5A])) = Ok OtherMsg" by (simp add: constLib_def)
  from parse_error_fatal [OF r xb sendStatus_state0, of "[envChunk]"] pb
  have 1: "run ?bad state0 [envChunk, envChunk]
      = ([LogXLogData (chunk 200 [0x5A])], Inl (Fatal ParseLogicalFailed))"
    by (simp del: run.simps)
  from parse_error_fatal [OF r xo sendStatus_state0, of "[]"] po
  have 2: "step ?other state0 envChunk
      = ([LogXLogData (chunk 200 [0x5A]), LogReceive OtherMsg, LogUnknownMessage],
         Inr (state0\<lparr>clientXLogPos := 201\<rparr>))"
    by (simp add: chunk_def)
  from r pb po 1 2 show ?thesis by blast
qed

text \<open>
  The claim C4 as stated fails: the decoder reports an error for the payload, and the
  session ends with a fatal error on that message; the second input is never processed
  and nothing is logged as skipped.
\<close>

theorem unknown_tag_ends_session:
  "run (constLib Err (Ok (chunk 200 [0x5A])) Err) state0 [envChunk, envChunk]
     = ([LogXLogData (chunk 200 [0x5A])], Inl (Fatal ParseLogicalFailed))"
  by (simp add: sample_defs step_defs)

subsection \<open>The per-column loop\<close>

lemma decodeColumn_cases:
  "decodeColumn ci rel idx col vs = (out, r) \<Longrightarrow>
     (r = Inl (Panic IndexOutOfRange) \<and> length (RelationMessage.Columns rel) \<le> idx)
   \<or> (r = Inl (Fatal ErrorDecodingColumnData) \<and> idx < length (RelationMessage.Columns rel)
        \<and> TupleDataColumn.DataType col = 0x74
        \<and> decodeTextColumnData ci (Data col)
             (RelationMessageColumn.DataType (RelationMessage.Columns rel ! idx)) = Err)
   \<or> (\<exists>vs'. r = Inr vs' \<and> idx < length (RelationMessage.Columns rel))"
  by (auto simp: decodeColumn_def Let_def split: if_splits result.splits)

lemma decodeColumns_stop:
  "snd (decodeColumns ci rel idx cols vs) = Inl st \<Longrightarrow>
     st = Panic IndexOutOfRange \<or> st = Fatal ErrorDecodingColumnData"
proof (induction cols arbitrary: idx vs)
  case Nil
  then show ?case by simp
next
  case (Cons col cols)
  obtain out r where c: "decodeColumn ci rel idx col vs = (out, r)" by (cases "decodeColumn ci rel idx col vs")
  show ?case
  proof (cases r)
    case (Inl st')
    with c Cons.prems have "st = st'" by (simp add: bind_out_def)
    with decodeColumn_cases [OF c] Inl show ?thesis by auto
  next
    case (Inr vs')
    with c Cons.prems have "snd (decodeColumns ci rel (Suc idx) cols vs') = Inl st"
      by (simp add: bind_out_Inr bind_out_Inl)
    then show ?thesis by (rule Cons.IH)
  qed
qed

lemma decodeColumns_panic:
  "snd (decodeColumns ci rel idx cols vs) = Inl (Panic IndexOutOfRange) \<Longrightarrow>
     length (RelationMessage.Columns rel) < idx + length cols"
proof (induction cols arbitrary: idx vs)
  case Nil
  then show ?case by simp
next
  case (Cons col cols)
  obtain out r where c: "decodeColumn ci rel idx col vs = (out, r)" by (cases "decodeColumn ci rel idx col vs")
  show ?case
  proof (cases r)
    case (Inl st')
    with c Cons.prems have "st' = Panic IndexOutOfRange" by (simp add: bind_out_def)
    with decodeColumn_cases [OF c] Inl show ?thesis by auto
  next
    case (Inr vs')
    with c Cons.prems have "snd (decodeColumns ci rel (Suc idx) cols vs') = Inl (Panic IndexOutOfRange)"
      by (simp add: bind_out_Inr bind_out_Inl)
    from Cons.IH [OF this] show ?thesis by simp
  qed
qed

lemma decodeColumns_Inr_length:
  "snd (decodeColumns ci rel idx cols vs) = Inr vs' \<Longrightarrow> cols \<noteq> [] \<Longrightarrow>
     idx + length cols \<le> length (RelationMessage.Columns rel)"
proof (induction cols arbitrary: idx vs)
  case Nil
  then show ?case by simp
next
  case (Cons col cols)
  obtain out r where c: "decodeColumn ci rel idx col vs = (out, r)" by (cases "decodeColumn ci rel idx col vs")
  from c Cons.prems obtain vs1 where r: "r = Inr vs1"
    by (cases r) (auto simp: bind_out_def)
  with decodeColumn_cases [OF c] have lt: "idx < length (RelationMessage.Columns rel)" by auto
  from c r Cons.prems have rest: "snd (decodeColumns ci rel (Suc idx) cols vs1) = Inr vs'"
    by (simp add: bind_out_Inr bind_out_Inl)
  show ?case
  proof (cases cols)
    case Nil
    with lt show ?thesis by simp
  next
    case (Cons a list)
    with Cons.IH [OF rest] show ?thesis by simp
  qed
qed

lemma decodeColumns_long:
  assumes "length (RelationMessage.Columns rel) < length cols"
  shows "\<exists>st. snd (decodeColumns ci rel 0 cols vs) = Inl st"
proof (cases "snd (decodeColumns ci rel 0 cols vs)")
  case (Inl a)
  then show ?thesis by simp
next
  case (Inr vs')
  from assms have "cols \<noteq> []" by auto
  from decodeColumns_Inr_length [OF Inr this] assms show ?thesis by simp
qed

lemma decodeColumns_text_fail:
  assumes "i < length cols" and "idx + i < length (RelationMessage.Columns rel)"
    and "TupleDataColumn.DataType (cols ! i) = 0x74"
    and "decodeTextColumnData ci (Data (cols ! i))
           (RelationMessageColumn.DataType (RelationMessage.Columns rel ! (idx + i))) = Err"
  shows "snd (decodeColumns ci rel idx cols vs) = Inl (Fatal ErrorDecodingColumnData)"
  using assms
proof (induction cols arbitrary: idx i vs)
  case Nil
  then show ?case by simp
next
  case (Cons col cols)
  show ?case
  proof (cases i)
    case 0
    with Cons.prems show ?thesis
      by (simp add: decodeColumn_def bind_out_def)
  next
    case (Suc j)
    obtain out r where c: "decodeColumn ci rel idx col vs = (out, r)" by (cases "decodeColumn ci rel idx col vs")
    from Cons.prems Suc have lt: "idx < length (RelationMessage.Columns rel)" by simp
    show ?thesis
    proof (cases r)
      case (Inl st)
      with decodeColumn_cases [OF c] lt have "st = Fatal ErrorDecodingColumnData" by auto
      with c Inl show ?thesis by (simp add: bind_out_def)
    next
      case (Inr vs1)
      from Cons.prems Suc
      have "snd (decodeColumns ci rel (Suc idx) cols vs1) = Inl (Fatal ErrorDecodingColumnData)"
        by (intro Cons.IH [of j]) simp_all
      with c Inr show ?thesis by (simp add: bind_out_Inr bind_out_Inl)
    qed
  qed
qed

lemma decodeColumns_no_row_effect:
  "LogInsert ns n v \<notin> set (fst (decodeColumns ci rel idx cols vs))
   \<and> LogUpdate ns n v w \<notin> set (fst (decodeColumns ci rel idx cols vs))"
proof (induction cols arbitrary: idx vs)
  case Nil
  then show ?case by simp
next
  case (Cons col cols)
  have h: "LogInsert ns n v \<notin> set (fst (decodeColumn ci rel idx col vs))
      \<and> LogUpdate ns n v w \<notin> set (fst (decodeColumn ci rel idx col vs))"
    by (auto simp: decodeColumn_def Let_def split: result.splits)
  obtain out r where c: "decodeColumn ci rel idx col vs = (out, r)" by (cases "decodeColumn ci rel idx col vs")
  show ?case
  proof (cases r)
    case (Inl a)
    with c h show ?thesis by (simp add: bind_out_def)
  next
    case (Inr vs1)
    with c h Cons.IH [of "Suc idx" vs1] show ?thesis
      by (auto simp: bind_out_Inr bind_out_Inl)
  qed
qed


lemma decodeColumns_fatal:
  "snd (decodeColumns ci rel idx cols vs) = Inl (Fatal ErrorDecodingColumnData) \<Longrightarrow>
     \<exists>i<length cols. idx + i < length (RelationMessage.Columns rel)
       \<and> TupleDataColumn.DataType (cols ! i) = 0x74
       \<and> decodeTextColumnData ci (Data (cols ! i))
            (RelationMessageColumn.DataType (RelationMessage.Columns rel ! (idx + i))) = Err"
proof (induction cols arbitrary: idx vs)
  case Nil
  then show ?case by simp
next
  case (Cons col cols)
  obtain out r where c: "decodeColumn ci rel idx col vs = (out, r)" by (cases "decodeColumn ci rel idx col vs")
  show ?case
  proof (cases r)
    case (Inl st')
    with c Cons.prems have "st' = Fatal ErrorDecodingColumnData" by (simp add: bind_out_def)
    with decodeColumn_cases [OF c] Inl
    have "idx + 0 < length (RelationMessage.Columns rel)
       \<and> TupleDataColumn.DataType ((col # cols) ! 0) = 0x74
       \<and> decodeTextColumnData ci (Data ((col # cols) ! 0))
            (RelationMessageColumn.DataType (RelationMessage.Columns rel ! (idx + 0))) = Err"
      by auto
    then show ?thesis by (intro exI [of _ 0]) simp
  next
    case (Inr vs')
    with c Cons.prems
    have "snd (decodeColumns ci rel (Suc idx) cols vs') = Inl (Fatal ErrorDecodingColumnData)"
      by (simp add: bind_out_Inr)
    from Cons.IH [OF this] obtain i where "i < length cols"
      "Suc idx + i < length (RelationMessage.Columns rel)"
      "TupleDataColumn.DataType (cols ! i) = 0x74"
      "decodeTextColumnData ci (Data (cols ! i))
            (RelationMessageColumn.DataType (RelationMessage.Columns rel ! (Suc idx + i))) = Err"
      by blast
    then show ?thesis by (intro exI [of _ "Suc i"]) simp
  qed
qed

text \<open>
  Claim C5, as amended. The claim says that a tuple whose number of columns differs from
  that of the cached schema raises a fatal decode error before any access outside the
  schema. The program compares no lengths. The loop reads \<open>rel.Columns[idx]\<close> out of range
  only when the tuple has more columns than the schema, and then, unless a text column
  within the schema failed to decode first, it stops with the runtime's index-out-of-range
  panic, not with a fatal error of its own. A tuple with no more columns than the schema
  raises no error for the mismatch: when no text column fails to decode the loop yields a
  row.
\<close>

theorem column_count_unchecked:
  "(snd (decodeColumns ci rel 0 cols vs) = Inl (Panic IndexOutOfRange) \<longrightarrow>
      length (RelationMessage.Columns rel) < length cols)
 \<and> ((\<forall>i. \<not> textDecodeFails ci rel cols i) \<longrightarrow>
      (length (RelationMessage.Columns rel) < length cols \<longrightarrow>
         snd (decodeColumns ci rel 0 cols vs) = Inl (Panic IndexOutOfRange))
    \<and> (length cols \<le> length (RelationMessage.Columns rel) \<longrightarrow>
         (\<exists>values. snd (decodeColumns ci rel 0 cols vs) = Inr values)))"
proof (intro conjI impI)
  assume "snd (decodeColumns ci rel 0 cols vs) = Inl (Panic IndexOutOfRange)"
  from decodeColumns_panic [OF this] show "length (RelationMessage.Columns rel) < length cols"
    by simp
next
  assume ok: "\<forall>i. \<not> textDecodeFails ci rel cols i"
  have nofatal: "snd (decodeColumns ci rel 0 cols vs) \<noteq> Inl (Fatal ErrorDecodingColumnData)"
  proof
    assume "snd (decodeColumns ci rel 0 cols vs) = Inl (Fatal ErrorDecodingColumnData)"
    from decodeColumns_fatal [OF this] obtain i where "textDecodeFails ci rel cols i"
      by (auto simp: textDecodeFails_def)
    with ok show False by simp
  qed
  {
    assume "length (RelationMessage.Columns rel) < length cols"
    from decodeColumns_long [OF this] obtain st
      where st: "snd (decodeColumns ci rel 0 cols vs) = Inl st" by blast
    from decodeColumns_stop [OF st] nofatal st
    show "snd (decodeColumns ci rel 0 cols vs) = Inl (Panic IndexOutOfRange)" by auto
  next
    assume le: "length cols \<le> length (RelationMessage.Columns rel)"
    show "\<exists>values. snd (decodeColumns ci rel 0 cols vs) = Inr values"
    proof (cases "snd (decodeColumns ci rel 0 cols vs)")
      case (Inl st)
      from decodeColumns_stop [OF Inl] nofatal Inl
      have "snd (decodeColumns ci rel 0 cols vs) = Inl (Panic IndexOutOfRange)" by auto
      from decodeColumns_panic [OF this] le show ?thesis by simp
    next
      case (Inr row)
      then show ?thesis by blast
    qed
  }
qed

theorem column_count_unchecked_witness:
  "length (RelationMessage.Columns trial) < length [column 0x6E [], column 0x6E [], column 0x6E []]
   \<and> snd (decodeColumns sampleConnInfo trial 0 [column 0x6E [], column 0x6E [], column 0x6E []]
            Map.empty) = Inl (Panic IndexOutOfRange)
   \<and> length [column 0x6E []] \<le> length (RelationMessage.Columns trial)
   \<and> snd (decodeColumns sampleConnInfo trial 0 [column 0x6E []] Map.empty)
       = Inr [''id'' \<mapsto> None]"
proof -
  let ?long = "[column 0x6E [], column 0x6E [], column 0x6E []]"
  let ?short = "[column 0x6E []]"
  have nl: "\<forall>i. \<not> textDecodeFails sampleConnInfo trial ?long i"
    by (auto simp: textDecodeFails_def column_def nth_Cons split: nat.splits)
  have ns: "\<forall>i. \<not> textDecodeFails sampleConnInfo trial ?short i"
    by (auto simp: textDecodeFails_def column_def)
  have ll: "length (RelationMessage.Columns trial) < length ?long" by (simp add: trial_def)
  have ls: "length ?short \<le> length (RelationMessage.Columns trial)" by (simp add: trial_def)
  have row: "snd (decodeColumns sampleConnInfo trial 0 ?short Map.empty) = Inr [''id'' \<mapsto> None]"
    by (simp add: sample_defs step_defs)
  from column_count_unchecked [of sampleConnInfo trial ?long Map.empty] nl ll
  have "snd (decodeColumns sampleConnInfo trial 0 ?long Map.empty) = Inl (Panic IndexOutOfRange)"
    by blast
  moreover from column_count_unchecked [of sampleConnInfo trial ?short Map.empty] ns ls
  have "\<exists>values. snd (decodeColumns sampleConnInfo trial 0 ?short Map.empty) = Inr values"
    by blast
  ultimately show ?thesis using ll ls row by blast
qed

text \<open>
  The claim C5 as stated fails both ways. With the two-column relation \<open>public.trial\<close>
  cached, an Insert of three columns stops the program with an index-out-of-range panic,
  which is not a fatal decode error; an Insert of one column raises nothing: its row is
  printed and the loop continues.
\<close>

theorem mismatch_panics_or_passes:
  "step (constLib Err (Ok (chunk 200 [0x49]))
           (Ok (InsertMsg (insertOf 1 [column 0x6E [], column 0x6E [], column 0x6E []]))))
      state1 envChunk
     = ([LogXLogData (chunk 200 [0x49]),
         LogReceive (InsertMsg (insertOf 1 [column 0x6E [], column 0x6E [], column 0x6E []]))],
        Inl (Panic IndexOutOfRange))
   \<and> step (constLib Err (Ok (chunk 200 [0x49])) (Ok (InsertMsg (insertOf 1 [column 0x6E []]))))
        state1 envChunk
     = ([LogXLogData (chunk 200 [0x49]), LogReceive (InsertMsg (insertOf 1 [column 0x6E []])),
         LogInsert ''public'' ''trial'' [''id'' \<mapsto> None]],
        Inr (state1\<lparr>clientXLogPos := 201\<rparr>))"
  by (simp add: sample_defs step_defs)

subsection \<open>Null and unchanged-TOAST columns\<close>

lemma decodeColumn_row:
  assumes "decodeColumn ci rel idx col vs = (out, Inr vs')"
  shows "(\<forall>x. x \<noteq> Name (RelationMessage.Columns rel ! idx) \<longrightarrow> vs' x = vs x)
       \<and> (TupleDataColumn.DataType col = 0x6E \<longrightarrow>
            vs' (Name (RelationMessage.Columns rel ! idx)) = Some None)
       \<and> (TupleDataColumn.DataType col = 0x75 \<longrightarrow> vs' = vs)"
  using assms by (auto simp: decodeColumn_def Let_def split: if_splits result.splits)

lemma decodeColumns_others:
  "snd (decodeColumns ci rel idx cols vs) = Inr vs' \<Longrightarrow>
   \<forall>j<length cols. x \<noteq> Name (RelationMessage.Columns rel ! (idx + j)) \<Longrightarrow> vs' x = vs x"
proof (induction cols arbitrary: idx vs)
  case Nil
  then show ?case by simp
next
  case (Cons col cols)
  obtain out r where c: "decodeColumn ci rel idx col vs = (out, r)" by (cases "decodeColumn ci rel idx col vs")
  from c Cons.prems(1) obtain vs1 where r: "r = Inr vs1"
    by (cases r) (auto simp: bind_out_def)
  from c r Cons.prems(1) have rest: "snd (decodeColumns ci rel (Suc idx) cols vs1) = Inr vs'"
    by (simp add: bind_out_Inr)
  from Cons.prems(2) have "x \<noteq> Name (RelationMessage.Columns rel ! idx)" by force
  with decodeColumn_row [OF c [unfolded r]] have 1: "vs1 x = vs x" by simp
  from Cons.prems(2) have "\<forall>j<length cols. x \<noteq> Name (RelationMessage.Columns rel ! (Suc idx + j))"
    by force
  from Cons.IH [OF rest this] 1 show ?case by simp
qed

lemma decodeColumns_row:
  assumes "distinct (map Name (RelationMessage.Columns rel))"
    and "\<forall>j. idx \<le> j \<and> j < length (RelationMessage.Columns rel) \<longrightarrow>
           vs (Name (RelationMessage.Columns rel ! j)) = None"
    and "snd (decodeColumns ci rel idx cols vs) = Inr values"
    and "i < length cols"
  shows "(TupleDataColumn.DataType (cols ! i) = 0x6E \<longrightarrow>
            values (Name (RelationMessage.Columns rel ! (idx + i))) = Some None)
       \<and> (TupleDataColumn.DataType (cols ! i) = 0x75 \<longrightarrow>
            values (Name (RelationMessage.Columns rel ! (idx + i))) = None)"
  using assms(2-)
proof (induction cols arbitrary: idx vs i)
  case Nil
  then show ?case by simp
next
  case (Cons col cols)
  let ?C = "RelationMessage.Columns rel"
  obtain out r where c: "decodeColumn ci rel idx col vs = (out, r)" by (cases "decodeColumn ci rel idx col vs")
  from c Cons.prems(2) obtain vs1 where r: "r = Inr vs1"
    by (cases r) (auto simp: bind_out_def)
  from c r Cons.prems(2) have rest: "snd (decodeColumns ci rel (Suc idx) cols vs1) = Inr values"
    by (simp add: bind_out_Inr)
  note row = decodeColumn_row [OF c [unfolded r]]
  from decodeColumns_Inr_length [OF Cons.prems(2)]
  have len: "idx + length (col # cols) \<le> length ?C" by simp
  have names: "Name (?C ! a) \<noteq> Name (?C ! b)" if "a < length ?C" "b < length ?C" "a \<noteq> b" for a b
    using that assms(1) nth_eq_iff_index_eq [of "map Name ?C" a b] by simp
  show ?case
  proof (cases i)
    case 0
    have "\<forall>j<length cols. Name (?C ! idx) \<noteq> Name (?C ! (Suc idx + j))"
    proof (intro allI impI)
      fix j assume "j < length cols"
      with len show "Name (?C ! idx) \<noteq> Name (?C ! (Suc idx + j))"
        by (intro names) simp_all
    qed
    from decodeColumns_others [OF rest this]
    have keep: "values (Name (?C ! idx)) = vs1 (Name (?C ! idx))" .
    from Cons.prems(1) len have "vs (Name (?C ! idx)) = None" by simp
    with row keep 0 show ?thesis by auto
  next
    case (Suc k)
    have inv: "\<forall>j. Suc idx \<le> j \<and> j < length ?C \<longrightarrow> vs1 (Name (?C ! j)) = None"
    proof (intro allI impI)
      fix j assume j: "Suc idx \<le> j \<and> j < length ?C"
      with len have "Name (?C ! j) \<noteq> Name (?C ! idx)" by (intro names) auto
      with row have "vs1 (Name (?C ! j)) = vs (Name (?C ! j))" by simp
      with Cons.prems(1) j show "vs1 (Name (?C ! j)) = None" by simp
    qed
    from Cons.prems(3) Suc have "k < length cols" by simp
    from Cons.IH [OF inv rest this] Suc show ?thesis by simp
  qed
qed

subsection \<open>Text columns that fail to decode\<close>

lemma snd_bind_out:
  "snd (bind_out m f) = (case snd m of Inl st \<Rightarrow> Inl st | Inr a \<Rightarrow> snd (f a))"
  by (cases m; cases "snd m") (simp_all add: bind_out_def split: prod.splits)

lemma fst_bind_out:
  "fst (bind_out m f) = fst m @ (case snd m of Inl st \<Rightarrow> [] | Inr a \<Rightarrow> fst (f a))"
  by (cases m; cases "snd m") (simp_all add: bind_out_def split: prod.splits)

lemma snd_handleInsert:
  "relations s (InsertMessage.RelationID m) = Some rel \<Longrightarrow>
   snd (handleInsert ci s m) =
     (case snd (decodeColumns ci rel 0 (TupleData.Columns (Tuple m)) Map.empty) of
        Inl st \<Rightarrow> Inl st | Inr row \<Rightarrow> Inr s)"
  by (simp add: handleInsert_def snd_bind_out split: sum.splits)

lemma snd_handleUpdate:
  "relations s (UpdateMessage.RelationID m) = Some rel \<Longrightarrow>
   snd (handleUpdate ci s m) =
     (case (case UpdateMessage.OldTuple m of
              None \<Rightarrow> Inr Map.empty
            | Some old \<Rightarrow> snd (decodeColumns ci rel 0 (TupleData.Columns old) Map.empty)) of
        Inl st \<Rightarrow> Inl st
      | Inr before \<Rightarrow>
          (case snd (decodeColumns ci rel 0 (TupleData.Columns (NewTuple m)) Map.empty) of
             Inl st \<Rightarrow> Inl st | Inr row \<Rightarrow> Inr s))"
  by (simp add: handleUpdate_def snd_bind_out split: sum.splits option.splits)

lemma decodeColumns_text_fail0:
  assumes "textDecodeFails ci rel cols i"
  shows "snd (decodeColumns ci rel 0 cols vs) = Inl (Fatal ErrorDecodingColumnData)"
  using assms decodeColumns_text_fail [of i cols 0 rel ci vs]
  by (simp add: textDecodeFails_def)

lemma decodeColumns_fit:
  assumes "length cols \<le> length (RelationMessage.Columns rel)"
    and "snd (decodeColumns ci rel 0 cols vs) = Inl st"
  shows "st = Fatal ErrorDecodingColumnData"
proof -
  from decodeColumns_stop [OF assms(2)] have "st = Panic IndexOutOfRange \<or> st = Fatal ErrorDecodingColumnData" .
  moreover have "st \<noteq> Panic IndexOutOfRange"
  proof
    assume "st = Panic IndexOutOfRange"
    with assms(2) decodeColumns_panic [of ci rel 0 cols vs] assms(1) show False by simp
  qed
  ultimately show ?thesis by simp
qed

lemma handleLogical_text_fail:
  assumes rid: "relationOf msg = Some rid" and rel: "relations s rid = Some rel"
    and mem: "cols \<in> set (tuplesOf msg)" and bad: "textDecodeFails ci rel cols i"
  shows "(snd (handleLogical ci s msg) = Inl (Fatal ErrorDecodingColumnData)
          \<or> snd (handleLogical ci s msg) = Inl (Panic IndexOutOfRange))
       \<and> ((\<forall>c\<in>set (tuplesOf msg). length c \<le> length (RelationMessage.Columns rel)) \<longrightarrow>
            snd (handleLogical ci s msg) = Inl (Fatal ErrorDecodingColumnData))"
proof (cases msg)
  case (InsertMsg m)
  with mem have "cols = TupleData.Columns (Tuple m)" by simp
  with bad have "snd (decodeColumns ci rel 0 (TupleData.Columns (Tuple m)) Map.empty)
      = Inl (Fatal ErrorDecodingColumnData)"
    by (simp add: decodeColumns_text_fail0)
  with InsertMsg rid rel show ?thesis
    by (simp add: handleLogical_def snd_handleInsert)
next
  case (UpdateMsg m)
  with rid rel have r: "relations s (UpdateMessage.RelationID m) = Some rel" by simp
  let ?new = "snd (decodeColumns ci rel 0 (TupleData.Columns (NewTuple m)) Map.empty)"
  show ?thesis
  proof (cases "UpdateMessage.OldTuple m")
    case None
    with UpdateMsg mem have "cols = TupleData.Columns (NewTuple m)" by simp
    with bad have "?new = Inl (Fatal ErrorDecodingColumnData)"
      by (simp add: decodeColumns_text_fail0)
    with UpdateMsg None show ?thesis
      by (simp add: handleLogical_def snd_handleUpdate [OF r])
  next
    case (Some old)
    let ?old = "snd (decodeColumns ci rel 0 (TupleData.Columns old) Map.empty)"
    from UpdateMsg Some mem
    consider "cols = TupleData.Columns old" | "cols = TupleData.Columns (NewTuple m)" by auto
    then show ?thesis
    proof cases
      case 1
      with bad have "?old = Inl (Fatal ErrorDecodingColumnData)"
        by (simp add: decodeColumns_text_fail0)
      with UpdateMsg Some show ?thesis
        by (simp add: handleLogical_def snd_handleUpdate [OF r])
    next
      case 2
      with bad have new: "?new = Inl (Fatal ErrorDecodingColumnData)"
        by (simp add: decodeColumns_text_fail0)
      show ?thesis
      proof (cases ?old)
        case (Inl st)
        from decodeColumns_stop [OF Inl]
        have "st = Panic IndexOutOfRange \<or> st = Fatal ErrorDecodingColumnData" .
        moreover have "st = Fatal ErrorDecodingColumnData"
          if "length (TupleData.Columns old) \<le> length (RelationMessage.Columns rel)"
          using that Inl by (rule decodeColumns_fit)
        ultimately show ?thesis using UpdateMsg Some Inl
          by (auto simp: handleLogical_def snd_handleUpdate [OF r])
      next
        case (Inr before)
        with UpdateMsg Some new show ?thesis
          by (simp add: handleLogical_def snd_handleUpdate [OF r])
      qed
    qed
  qed
qed (use rid in simp_all)

lemma handleLogical_stop_no_row:
  assumes "snd (handleLogical ci s msg) = Inl st"
  shows "LogInsert ns n v \<notin> set (fst (handleLogical ci s msg))
       \<and> LogUpdate ns n v w \<notin> set (fst (handleLogical ci s msg))"
proof (cases msg)
  case (InsertMsg m)
  show ?thesis
  proof (cases "relations s (InsertMessage.RelationID m)")
    case None
    with InsertMsg show ?thesis by (simp add: handleLogical_def handleInsert_def)
  next
    case (Some rel)
    obtain out r where d: "decodeColumns ci rel 0 (TupleData.Columns (Tuple m)) Map.empty = (out, r)"
      by (cases "decodeColumns ci rel 0 (TupleData.Columns (Tuple m)) Map.empty")
    with assms InsertMsg Some obtain st' where "r = Inl st'"
      by (cases r) (auto simp: handleLogical_def snd_handleInsert)
    with d InsertMsg Some
    have "fst (handleLogical ci s msg) = fst (decodeColumns ci rel 0 (TupleData.Columns (Tuple m)) Map.empty)"
      by (simp add: handleLogical_def handleInsert_def bind_out_def)
    with decodeColumns_no_row_effect show ?thesis by metis
  qed
next
  case (UpdateMsg m)
  show ?thesis
  proof (cases "relations s (UpdateMessage.RelationID m)")
    case None
    with UpdateMsg show ?thesis by (simp add: handleLogical_def handleUpdate_def)
  next
    case (Some rel)
    note nr = decodeColumns_no_row_effect [of ns n v ci rel 0 _ Map.empty w]
    obtain on rn where new: "decodeColumns ci rel 0 (TupleData.Columns (NewTuple m)) Map.empty = (on, rn)"
      by (cases "decodeColumns ci rel 0 (TupleData.Columns (NewTuple m)) Map.empty")
    from nr [of "TupleData.Columns (NewTuple m)"] new
    have non: "LogInsert ns n v \<notin> set on \<and> LogUpdate ns n v w \<notin> set on" by simp
    show ?thesis
    proof (cases "UpdateMessage.OldTuple m")
      case None
      with assms UpdateMsg Some new obtain st' where "rn = Inl st'"
        by (cases rn) (auto simp: handleLogical_def snd_handleUpdate)
      with UpdateMsg Some None new non show ?thesis
        by (simp add: handleLogical_def handleUpdate_def bind_out_def)
    next
      case (Some old)
      obtain oo ro where old: "decodeColumns ci rel 0 (TupleData.Columns old) Map.empty = (oo, ro)"
        by (cases "decodeColumns ci rel 0 (TupleData.Columns old) Map.empty")
      from nr [of "TupleData.Columns old"] old
      have noo: "LogInsert ns n v \<notin> set oo \<and> LogUpdate ns n v w \<notin> set oo" by simp
      show ?thesis
      proof (cases ro)
        case (Inl a)
        with UpdateMsg \<open>relations s (UpdateMessage.RelationID m) = Some rel\<close> Some old noo
        show ?thesis by (simp add: handleLogical_def handleUpdate_def bind_out_def)
      next
        case (Inr before)
        with assms UpdateMsg \<open>relations s (UpdateMessage.RelationID m) = Some rel\<close> Some old new
        obtain st' where "rn = Inl st'"
          by (cases rn) (auto simp: handleLogical_def snd_handleUpdate)
        with Inr UpdateMsg \<open>relations s (UpdateMessage.RelationID m) = Some rel\<close> Some old new noo non
        show ?thesis by (simp add: handleLogical_def handleUpdate_def bind_out_def)
      qed
    qed
  qed
qed (use assms in \<open>simp_all add: handleLogical_def\<close>)

text \<open>
  Claim C2, as amended. The claim says that a text column whose bytes are malformed for
  its type rejects the row and lets the session continue. In the program the error of
  \<open>decodeTextColumnData\<close> is fatal (lines 175-177, 205-207, 226-228): when a tuple of an
  Insert or Update message has a text column within the cached schema that fails to
  decode, the iteration stops the program, the loop runs no further iteration, and no
  row is printed for the message. The stop is the fatal error \<open>error decoding column data\<close>
  whenever the message's tuples have no more columns than the schema (otherwise it may
  be the index-out-of-range panic of an earlier tuple).
\<close>

theorem text_decode_failure_fatal:
  fixes lib :: "'v Lib"
  assumes recv: "received e = CopyData (0x77 # data)"
    and xld: "ParseXLogData lib data = Ok xld"
    and send: "sendStatus s e = (o1 :: 'v effect list, Inr s1)"
    and parse: "Parse lib (WALData xld) = Ok msg"
    and rid: "relationOf msg = Some rid" and rel: "relations s rid = Some rel"
    and mem: "cols \<in> set (tuplesOf msg)"
    and bad: "textDecodeFails (NewConnInfo lib) rel cols i"
  shows "(snd (step lib s e) = Inl (Fatal ErrorDecodingColumnData)
          \<or> snd (step lib s e) = Inl (Panic IndexOutOfRange))
       \<and> ((\<forall>c\<in>set (tuplesOf msg). length c \<le> length (RelationMessage.Columns rel)) \<longrightarrow>
            snd (step lib s e) = Inl (Fatal ErrorDecodingColumnData))
       \<and> run lib s (e # es) = step lib s e
       \<and> (\<forall>ns n v w. LogInsert ns n v \<notin> set (fst (step lib s e))
                    \<and> LogUpdate ns n v w \<notin> set (fst (step lib s e)))"
proof -
  let ?h = "handleLogical (NewConnInfo lib) s1 msg"
  from send rel have rel1: "relations s1 rid = Some rel" by (simp add: sendStatus_relations)
  note h = handleLogical_text_fail [OF rid rel1 mem bad]
  from h obtain st where st: "snd ?h = Inl st" by blast
  from parse st have snd_step: "snd (step lib s e) = snd ?h"
    by (simp add: step_chunk [OF recv xld send])
  from parse have fst_step: "fst (step lib s e) = o1 @ [LogXLogData xld, LogReceive msg] @ fst ?h"
    by (simp add: step_chunk [OF recv xld send])
  from send have o1: "LogInsert ns n v \<notin> set o1 \<and> LogUpdate ns n v w \<notin> set o1" for ns n v w
    by (auto simp: sendStatus_def split: if_splits)
  from snd_step st have "run lib s (e # es) = step lib s e" by (intro run_stop) simp
  moreover have "\<forall>ns n v w. LogInsert ns n v \<notin> set (fst (step lib s e))
                    \<and> LogUpdate ns n v w \<notin> set (fst (step lib s e))"
    using handleLogical_stop_no_row [OF st] o1 by (simp add: fst_step)
  ultimately show ?thesis using h snd_step by simp
qed

theorem text_decode_failure_fatal_witness:
  "received envChunk = CopyData (0x77 # [])
   \<and> relationOf (InsertMsg (insertOf 1 [column 0x74 [0x78]])) = Some 1
   \<and> relations state1 1 = Some trial
   \<and> textDecodeFails sampleConnInfo trial [column 0x74 [0x78]] 0
   \<and> snd (step (constLib Err (Ok (chunk 200 [0x49])) (Ok (InsertMsg (insertOf 1 [column 0x74 [0x78]]))))
            state1 envChunk) = Inl (Fatal ErrorDecodingColumnData)
   \<and> run (constLib Err (Ok (chunk 200 [0x49])) (Ok (InsertMsg (insertOf 1 [column 0x74 [0x78]]))))
        state1 [envChunk, envChunk]
      = step (constLib Err (Ok (chunk 200 [0x49])) (Ok (InsertMsg (insertOf 1 [column 0x74 [0x78]]))))
          state1 envChunk"
proof -
  let ?cols = "[column 0x74 [0x78]]"
  let ?msg = "InsertMsg (insertOf 1 ?cols)"
  let ?lib = "constLib Err (Ok (chunk 200 [0x49])) (Ok ?msg)"
  have r: "received envChunk = CopyData (0x77 # [])" by (simp add: envChunk_def)
  have x: "ParseXLogData ?lib [] = Ok (chunk 200 [0x49])" by (simp add: constLib_def)
  have p: "Parse ?lib (WALData (chunk 200 [0x49])) = Ok ?msg" by (simp add: constLib_def)
  have rid: "relationOf ?msg = Some 1" by (simp add: insertOf_def)
  have rel: "relations state1 1 = Some trial" by (simp add: state1_def)
  have mem: "?cols \<in> set (tuplesOf ?msg)" by (simp add: insertOf_def)
  have bad: "textDecodeFails (NewConnInfo ?lib) trial ?cols 0"
    by (simp add: textDecodeFails_def sample_defs decodeTextColumnData_def)
  have bad': "textDecodeFails sampleConnInfo trial ?cols 0"
    using bad by (simp add: constLib_def)
  have fit: "\<forall>c\<in>set (tuplesOf ?msg). length c \<le> length (RelationMessage.Columns trial)"
    by (simp add: insertOf_def trial_def)
  from text_decode_failure_fatal [OF r x sendStatus_state1 p rid rel mem bad, of "[envChunk]"] fit
  have "snd (step ?lib state1 envChunk) = Inl (Fatal ErrorDecodingColumnData)"
    and "run ?lib state1 [envChunk, envChunk] = step ?lib state1 envChunk"
    by blast+
  with r rid rel bad' show ?thesis by blast
qed

text \<open>
  The claim C2 as stated fails: with \<open>public.trial\<close> cached, an Insert whose \<open>id\<close> column
  (OID 23) carries the text \<open>x\<close> ends the session with a fatal error; the second input is
  never processed.
\<close>

theorem malformed_text_ends_session:
  "run (constLib Err (Ok (chunk 200 [0x49])) (Ok (InsertMsg (insertOf 1 [column 0x74 [0x78]]))))
     state1 [envChunk, envChunk]
     = ([LogXLogData (chunk 200 [0x49]), LogReceive (InsertMsg (insertOf 1 [column 0x74 [0x78]]))],
        Inl (Fatal ErrorDecodingColumnData))"
  by (simp add: sample_defs step_defs)

subsection \<open>The emitted row\<close>

lemma handleInsert_emits:
  assumes rel: "relations s (InsertMessage.RelationID m) = Some rel"
    and mem: "LogInsert ns n row \<in> set (fst (handleInsert ci s m))"
  shows "snd (decodeColumns ci rel 0 (TupleData.Columns (Tuple m)) Map.empty) = Inr row"
proof (cases "snd (decodeColumns ci rel 0 (TupleData.Columns (Tuple m)) Map.empty)")
  case (Inl st)
  with rel mem decodeColumns_no_row_effect [of ns n row ci rel 0 "TupleData.Columns (Tuple m)" Map.empty]
  show ?thesis by (simp add: handleInsert_def fst_bind_out)
next
  case (Inr v)
  with rel mem decodeColumns_no_row_effect [of ns n row ci rel 0 "TupleData.Columns (Tuple m)" Map.empty]
  show ?thesis by (simp add: handleInsert_def fst_bind_out)
qed

lemma handleUpdate_emits:
  assumes rel: "relations s (UpdateMessage.RelationID m) = Some rel"
    and mem: "LogUpdate ns n after before \<in> set (fst (handleUpdate ci s m))"
  shows "snd (decodeColumns ci rel 0 (TupleData.Columns (NewTuple m)) Map.empty) = Inr after
       \<and> (\<forall>old. UpdateMessage.OldTuple m = Some old \<longrightarrow>
            snd (decodeColumns ci rel 0 (TupleData.Columns old) Map.empty) = Inr before)"
proof -
  note nr = decodeColumns_no_row_effect [of ns n "after" ci rel 0 _ Map.empty before]
  let ?new = "decodeColumns ci rel 0 (TupleData.Columns (NewTuple m)) Map.empty"
  have tail: "snd ?new = Inr after"
    if "LogUpdate ns n after before \<in> set (fst (bind_out ?new
          (\<lambda>newValues. ([LogUpdate (Namespace rel) (RelationName rel) newValues ov], Inr s))))"
    for ov
    using that nr [of "TupleData.Columns (NewTuple m)"]
    by (cases "snd ?new") (simp_all add: fst_bind_out)
  have tail2: "ov = before"
    if "LogUpdate ns n after before \<in> set (fst (bind_out ?new
          (\<lambda>newValues. ([LogUpdate (Namespace rel) (RelationName rel) newValues ov], Inr s))))"
    for ov
    using that nr [of "TupleData.Columns (NewTuple m)"]
    by (cases "snd ?new") (simp_all add: fst_bind_out)
  show ?thesis
  proof (cases "UpdateMessage.OldTuple m")
    case None
    with rel mem have "LogUpdate ns n after before \<in> set (fst (bind_out ?new
          (\<lambda>newValues. ([LogUpdate (Namespace rel) (RelationName rel) newValues Map.empty], Inr s))))"
      by (simp add: handleUpdate_def fst_bind_out)
    from tail [OF this] None show ?thesis by simp
  next
    case (Some old)
    let ?old = "decodeColumns ci rel 0 (TupleData.Columns old) Map.empty"
    show ?thesis
    proof (cases "snd ?old")
      case (Inl st)
      with rel mem Some nr [of "TupleData.Columns old"] show ?thesis
        by (simp add: handleUpdate_def fst_bind_out)
    next
      case (Inr ov)
      with rel mem Some nr [of "TupleData.Columns old"]
      have m: "LogUpdate ns n after before \<in> set (fst (bind_out ?new
          (\<lambda>newValues. ([LogUpdate (Namespace rel) (RelationName rel) newValues ov], Inr s))))"
        by (simp add: handleUpdate_def fst_bind_out)
      from tail [OF m] tail2 [OF m] Inr Some show ?thesis by simp
    qed
  qed
qed

lemma step_emits:
  fixes lib :: "'v Lib"
  assumes recv: "received e = CopyData (0x77 # data)"
    and xld: "ParseXLogData lib data = Ok xld"
    and parse: "Parse lib (WALData xld) = Ok msg"
    and mem: "x \<in> set (fst (step lib s e))"
    and row: "(\<exists>ns n v. x = LogInsert ns n v) \<or> (\<exists>ns n v w. x = LogUpdate ns n v w)"
  shows "\<exists>s1. relations s1 = relations s \<and> x \<in> set (fst (handleLogical (NewConnInfo lib) s1 msg))"
proof -
  obtain o1 r1 where send: "sendStatus s e = (o1 :: 'v effect list, r1)"
    by (cases "sendStatus s e :: ('v effect, State) exec")
  then have o1: "x \<notin> set o1" using row
    by (auto simp: sendStatus_def split: if_splits)
  show ?thesis
  proof (cases r1)
    case (Inl st)
    with send have "fst (step lib s e) = o1" by (simp add: step_def bind_out_def)
    with mem o1 show ?thesis by simp
  next
    case (Inr s1)
    with send have s: "sendStatus s e = (o1, Inr s1)" by simp
    from parse have "fst (step lib s e) =
        o1 @ [LogXLogData xld, LogReceive msg] @ fst (handleLogical (NewConnInfo lib) s1 msg)"
      by (simp add: step_chunk [OF recv xld s])
    with mem o1 row have "x \<in> set (fst (handleLogical (NewConnInfo lib) s1 msg))" by auto
    with sendStatus_relations [OF s] show ?thesis by blast
  qed
qed

lemma handleInsert_emitted:
  assumes rel: "relations s (InsertMessage.RelationID m) = Some rel"
    and cont: "snd (handleInsert ci s m) = Inr s2"
  shows "\<exists>row. LogInsert (Namespace rel) (RelationName rel) row \<in> set (fst (handleInsert ci s m))"
proof (cases "snd (decodeColumns ci rel 0 (TupleData.Columns (Tuple m)) Map.empty)")
  case (Inl st)
  with cont show ?thesis by (simp add: snd_handleInsert [OF rel])
next
  case (Inr row)
  with rel show ?thesis by (auto simp: handleInsert_def fst_bind_out)
qed

lemma handleUpdate_emitted:
  assumes rel: "relations s (UpdateMessage.RelationID m) = Some rel"
    and cont: "snd (handleUpdate ci s m) = Inr s2"
  shows "\<exists>after before.
           LogUpdate (Namespace rel) (RelationName rel) after before \<in> set (fst (handleUpdate ci s m))"
proof -
  let ?new = "decodeColumns ci rel 0 (TupleData.Columns (NewTuple m)) Map.empty"
  let ?old = "case UpdateMessage.OldTuple m of
                  None \<Rightarrow> ([], Inr Map.empty)
                | Some old \<Rightarrow> decodeColumns ci rel 0 (TupleData.Columns old) Map.empty"
  from cont obtain before where o: "snd ?old = Inr before"
    by (cases "snd ?old") (auto simp: snd_handleUpdate [OF rel] split: option.splits)
  from cont o obtain after where n: "snd ?new = Inr after"
    by (cases "snd ?new") (auto simp: snd_handleUpdate [OF rel] split: option.splits)
  from rel o n have "LogUpdate (Namespace rel) (RelationName rel) after before
      \<in> set (fst (handleUpdate ci s m))"
    by (simp add: handleUpdate_def fst_bind_out)
  then show ?thesis by blast
qed

lemma step_continues_chunk:
  fixes lib :: "'v Lib"
  assumes recv: "received e = CopyData (0x77 # data)"
    and xld: "ParseXLogData lib data = Ok xld"
    and parse: "Parse lib (WALData xld) = Ok msg"
    and cont: "snd (step lib s e) = Inr s'"
  shows "\<exists>s1 s2. relations s1 = relations s
           \<and> snd (handleLogical (NewConnInfo lib) s1 msg) = Inr s2
           \<and> set (fst (handleLogical (NewConnInfo lib) s1 msg)) \<subseteq> set (fst (step lib s e))"
proof -
  from cont obtain s1 where s1: "snd (sendStatus s e :: ('v effect, State) exec) = Inr s1"
    by (rule step_Inr)
  then have send: "sendStatus s e = (fst (sendStatus s e) :: 'v effect list, Inr s1)"
    by (cases "sendStatus s e :: ('v effect, State) exec") simp
  note st = step_chunk [OF recv xld send]
  from cont parse obtain s2 where "snd (handleLogical (NewConnInfo lib) s1 msg) = Inr s2"
    by (cases "snd (handleLogical (NewConnInfo lib) s1 msg)") (simp_all add: st)
  moreover from parse
  have "set (fst (handleLogical (NewConnInfo lib) s1 msg)) \<subseteq> set (fst (step lib s e))"
    by (auto simp: st)
  ultimately show ?thesis using sendStatus_relations [OF send] by blast
qed

lemma step_row_emitted:
  fixes lib :: "'v Lib"
  assumes recv: "received e = CopyData (0x77 # data)"
    and xld: "ParseXLogData lib data = Ok xld"
    and parse: "Parse lib (WALData xld) = Ok msg"
    and rid: "relationOf msg = Some rid" and rel: "relations s rid = Some rel"
    and cont: "snd (step lib s e) = Inr s'"
  shows "(\<forall>m. msg = InsertMsg m \<longrightarrow>
           (\<exists>row. LogInsert (Namespace rel) (RelationName rel) row \<in> set (fst (step lib s e))))
       \<and> (\<forall>m. msg = UpdateMsg m \<longrightarrow>
           (\<exists>after before. LogUpdate (Namespace rel) (RelationName rel) after before
              \<in> set (fst (step lib s e))))"
proof -
  from step_continues_chunk [OF recv xld parse cont] obtain s1 s2
    where r1: "relations s1 = relations s"
      and h: "snd (handleLogical (NewConnInfo lib) s1 msg) = Inr s2"
      and sub: "set (fst (handleLogical (NewConnInfo lib) s1 msg)) \<subseteq> set (fst (step lib s e))"
    by blast
  show ?thesis
  proof (intro conjI allI impI)
    fix m assume m: "msg = InsertMsg m"
    with rid rel r1 have "relations s1 (InsertMessage.RelationID m) = Some rel" by simp
    moreover from h m have "snd (handleInsert (NewConnInfo lib) s1 m) = Inr s2"
      by (simp add: handleLogical_def)
    ultimately obtain row where "LogInsert (Namespace rel) (RelationName rel) row
        \<in> set (fst (handleInsert (NewConnInfo lib) s1 m))"
      using handleInsert_emitted by blast
    with m sub show "\<exists>row. LogInsert (Namespace rel) (RelationName rel) row
        \<in> set (fst (step lib s e))"
      by (auto simp: handleLogical_def)
  next
    fix m assume m: "msg = UpdateMsg m"
    with rid rel r1 have "relations s1 (UpdateMessage.RelationID m) = Some rel" by simp
    moreover from h m have "snd (handleUpdate (NewConnInfo lib) s1 m) = Inr s2"
      by (simp add: handleLogical_def)
    ultimately obtain after before where "LogUpdate (Namespace rel) (RelationName rel) after before
        \<in> set (fst (handleUpdate (NewConnInfo lib) s1 m))"
      using handleUpdate_emitted by blast
    with m sub show "\<exists>after before. LogUpdate (Namespace rel) (RelationName rel) after before
        \<in> set (fst (step lib s e))"
      by (auto simp: handleLogical_def)
  qed
qed

text \<open>
  Claim C6, as amended. The claim says that in every decoded row an unchanged-TOAST
  column (\<open>'u'\<close>) is never represented as a null column (\<open>'n'\<close>) is. That holds of the row
  the program prints when the column names of the cached schema are distinct: in the row
  of an \<open>INSERT INTO\<close> line, and in the new and the old row of an \<open>Update\<close> line, the name
  of a null column is bound to \<open>nil\<close> and the name of an unchanged-TOAST column is absent,
  so it is never bound to \<open>nil\<close>; and every iteration that processes an Insert or an
  Update of a cached relation and continues prints such a line. The program does not
  check that the names are distinct.
\<close>

theorem emitted_row_null_toast:
  fixes lib :: "'v Lib"
  assumes recv: "received e = CopyData (0x77 # data)"
    and xld: "ParseXLogData lib data = Ok xld"
    and parse: "Parse lib (WALData xld) = Ok msg"
    and rid: "relationOf msg = Some rid" and rel: "relations s rid = Some rel"
    and dist: "distinct (map Name (RelationMessage.Columns rel))"
  shows "(\<forall>m ns n row i.
            msg = InsertMsg m \<and> LogInsert ns n row \<in> set (fst (step lib s e))
              \<and> i < length (TupleData.Columns (Tuple m)) \<longrightarrow>
            (TupleDataColumn.DataType (TupleData.Columns (Tuple m) ! i) = 0x6E \<longrightarrow>
               row (Name (RelationMessage.Columns rel ! i)) = Some None)
          \<and> (TupleDataColumn.DataType (TupleData.Columns (Tuple m) ! i) = 0x75 \<longrightarrow>
               row (Name (RelationMessage.Columns rel ! i)) = None))
       \<and> (\<forall>m ns n after before i.
            msg = UpdateMsg m \<and> LogUpdate ns n after before \<in> set (fst (step lib s e))
              \<and> i < length (TupleData.Columns (NewTuple m)) \<longrightarrow>
            (TupleDataColumn.DataType (TupleData.Columns (NewTuple m) ! i) = 0x6E \<longrightarrow>
               after (Name (RelationMessage.Columns rel ! i)) = Some None)
          \<and> (TupleDataColumn.DataType (TupleData.Columns (NewTuple m) ! i) = 0x75 \<longrightarrow>
               after (Name (RelationMessage.Columns rel ! i)) = None))
       \<and> (\<forall>m old ns n after before i.
            msg = UpdateMsg m \<and> LogUpdate ns n after before \<in> set (fst (step lib s e))
              \<and> UpdateMessage.OldTuple m = Some old \<and> i < length (TupleData.Columns old) \<longrightarrow>
            (TupleDataColumn.DataType (TupleData.Columns old ! i) = 0x6E \<longrightarrow>
               before (Name (RelationMessage.Columns rel ! i)) = Some None)
          \<and> (TupleDataColumn.DataType (TupleData.Columns old ! i) = 0x75 \<longrightarrow>
               before (Name (RelationMessage.Columns rel ! i)) = None))
       \<and> (\<forall>s'. snd (step lib s e) = Inr s' \<longrightarrow>
            (\<forall>m. msg = InsertMsg m \<longrightarrow>
               (\<exists>row. LogInsert (Namespace rel) (RelationName rel) row
                  \<in> set (fst (step lib s e))))
          \<and> (\<forall>m. msg = UpdateMsg m \<longrightarrow>
               (\<exists>after before. LogUpdate (Namespace rel) (RelationName rel) after before
                  \<in> set (fst (step lib s e)))))"
proof -
  note cols = decodeColumns_row [OF dist, of 0 Map.empty, simplified]
  have ins: "snd (decodeColumns (NewConnInfo lib) rel 0 (TupleData.Columns (Tuple m)) Map.empty) = Inr row"
    if "msg = InsertMsg m" "LogInsert ns n row \<in> set (fst (step lib s e))" for m ns n row
  proof -
    from step_emits [OF recv xld parse that(2)] obtain s1 where s1: "relations s1 = relations s"
      and "LogInsert ns n row \<in> set (fst (handleLogical (NewConnInfo lib) s1 msg))" by blast
    with that(1) have "LogInsert ns n row \<in> set (fst (handleInsert (NewConnInfo lib) s1 m))"
      by (simp add: handleLogical_def)
    moreover from that(1) rid rel s1 have "relations s1 (InsertMessage.RelationID m) = Some rel"
      by simp
    ultimately show ?thesis by (intro handleInsert_emits)
  qed
  have upd: "snd (decodeColumns (NewConnInfo lib) rel 0 (TupleData.Columns (NewTuple m)) Map.empty) = Inr after
       \<and> (\<forall>old. UpdateMessage.OldTuple m = Some old \<longrightarrow>
            snd (decodeColumns (NewConnInfo lib) rel 0 (TupleData.Columns old) Map.empty) = Inr before)"
    if "msg = UpdateMsg m" "LogUpdate ns n after before \<in> set (fst (step lib s e))"
    for m ns n after before
  proof -
    from step_emits [OF recv xld parse that(2)] obtain s1 where s1: "relations s1 = relations s"
      and "LogUpdate ns n after before \<in> set (fst (handleLogical (NewConnInfo lib) s1 msg))" by blast
    with that(1) have "LogUpdate ns n after before \<in> set (fst (handleUpdate (NewConnInfo lib) s1 m))"
      by (simp add: handleLogical_def)
    moreover from that(1) rid rel s1 have "relations s1 (UpdateMessage.RelationID m) = Some rel"
      by simp
    ultimately show ?thesis by (intro handleUpdate_emits)
  qed
  have rows: "(\<forall>m ns n row i.
              msg = InsertMsg m \<and> LogInsert ns n row \<in> set (fst (step lib s e))
                \<and> i < length (TupleData.Columns (Tuple m)) \<longrightarrow>
              (TupleDataColumn.DataType (TupleData.Columns (Tuple m) ! i) = 0x6E \<longrightarrow>
                 row (Name (RelationMessage.Columns rel ! i)) = Some None)
            \<and> (TupleDataColumn.DataType (TupleData.Columns (Tuple m) ! i) = 0x75 \<longrightarrow>
                 row (Name (RelationMessage.Columns rel ! i)) = None))
         \<and> (\<forall>m ns n after before i.
              msg = UpdateMsg m \<and> LogUpdate ns n after before \<in> set (fst (step lib s e))
                \<and> i < length (TupleData.Columns (NewTuple m)) \<longrightarrow>
              (TupleDataColumn.DataType (TupleData.Columns (NewTuple m) ! i) = 0x6E \<longrightarrow>
                 after (Name (RelationMessage.Columns rel ! i)) = Some None)
            \<and> (TupleDataColumn.DataType (TupleData.Columns (NewTuple m) ! i) = 0x75 \<longrightarrow>
                 after (Name (RelationMessage.Columns rel ! i)) = None))
         \<and> (\<forall>m old ns n after before i.
              msg = UpdateMsg m \<and> LogUpdate ns n after before \<in> set (fst (step lib s e))
                \<and> UpdateMessage.OldTuple m = Some old \<and> i < length (TupleData.Columns old) \<longrightarrow>
              (TupleDataColumn.DataType (TupleData.Columns old ! i) = 0x6E \<longrightarrow>
                 before (Name (RelationMessage.Columns rel ! i)) = Some None)
            \<and> (TupleDataColumn.DataType (TupleData.Columns old ! i) = 0x75 \<longrightarrow>
                 before (Name (RelationMessage.Columns rel ! i)) = None))"
  proof (intro conjI allI impI; (elim conjE)?)
    fix m ns n row i
    assume "msg = InsertMsg m" "LogInsert ns n row \<in> set (fst (step lib s e))"
      and i: "i < length (TupleData.Columns (Tuple m))"
    from cols [OF ins [OF this(1,2)] i]
    show "TupleDataColumn.DataType (TupleData.Columns (Tuple m) ! i) = 0x6E \<Longrightarrow>
               row (Name (RelationMessage.Columns rel ! i)) = Some None"
      and "TupleDataColumn.DataType (TupleData.Columns (Tuple m) ! i) = 0x75 \<Longrightarrow>
               row (Name (RelationMessage.Columns rel ! i)) = None"
      by simp_all
  next
    fix m ns n after before i
    assume "msg = UpdateMsg m" "LogUpdate ns n after before \<in> set (fst (step lib s e))"
      and i: "i < length (TupleData.Columns (NewTuple m))"
    from cols [OF upd [OF this(1,2), THEN conjunct1] i]
    show "TupleDataColumn.DataType (TupleData.Columns (NewTuple m) ! i) = 0x6E \<Longrightarrow>
               after (Name (RelationMessage.Columns rel ! i)) = Some None"
      and "TupleDataColumn.DataType (TupleData.Columns (NewTuple m) ! i) = 0x75 \<Longrightarrow>
               after (Name (RelationMessage.Columns rel ! i)) = None"
      by simp_all
  next
    fix m old ns n after before i
    assume "msg = UpdateMsg m" "LogUpdate ns n after before \<in> set (fst (step lib s e))"
      and old: "UpdateMessage.OldTuple m = Some old" and i: "i < length (TupleData.Columns old)"
    from upd [OF this(1,2)] old
    have "snd (decodeColumns (NewConnInfo lib) rel 0 (TupleData.Columns old) Map.empty) = Inr before"
      by blast
    from cols [OF this i]
    show "TupleDataColumn.DataType (TupleData.Columns old ! i) = 0x6E \<Longrightarrow>
               before (Name (RelationMessage.Columns rel ! i)) = Some None"
      and "TupleDataColumn.DataType (TupleData.Columns old ! i) = 0x75 \<Longrightarrow>
               before (Name (RelationMessage.Columns rel ! i)) = None"
      by simp_all
  qed
  from rows step_row_emitted [OF recv xld parse rid rel] show ?thesis by blast
qed

lemma sendStatus_state2: "sendStatus state2 envChunk = ([], Inr state2)"
  by (simp add: sendStatus_def state2_def state0_def envChunk_def)

theorem emitted_row_null_toast_witness:
  "received envChunk = CopyData (0x77 # [])
   \<and> relations state1 1 = Some trial
   \<and> distinct (map Name (RelationMessage.Columns trial))
   \<and> LogInsert ''public'' ''trial'' [''id'' \<mapsto> None]
       \<in> set (fst (step (constLib Err (Ok (chunk 200 [0x49]))
                           (Ok (InsertMsg (insertOf 1 [column 0x6E [], column 0x75 []]))))
                      state1 envChunk))
   \<and> [''id'' \<mapsto> None :: sample_value option] (Name (RelationMessage.Columns trial ! 0)) = Some None
   \<and> [''id'' \<mapsto> None :: sample_value option] (Name (RelationMessage.Columns trial ! 1)) = None
   \<and> LogUpdate ''public'' ''trial'' [''name'' \<mapsto> None] [''id'' \<mapsto> None]
       \<in> set (fst (step (constLib Err (Ok (chunk 200 [0x55]))
                           (Ok (UpdateMsg (updateOf 1 (Some [column 0x6E [], column 0x75 []])
                                             [column 0x75 [], column 0x6E []]))))
                      state1 envChunk))
   \<and> [''name'' \<mapsto> None :: sample_value option] (Name (RelationMessage.Columns trial ! 0)) = None
   \<and> [''name'' \<mapsto> None :: sample_value option] (Name (RelationMessage.Columns trial ! 1)) = Some None"
proof -
  let ?cols = "[column 0x6E [], column 0x75 []]"
  let ?new = "[column 0x75 [], column 0x6E []]"
  let ?im = "insertOf 1 ?cols"
  let ?um = "updateOf 1 (Some ?cols) ?new"
  let ?ilib = "constLib Err (Ok (chunk 200 [0x49])) (Ok (InsertMsg ?im))"
  let ?ulib = "constLib Err (Ok (chunk 200 [0x55])) (Ok (UpdateMsg ?um))"
  let ?row = "[''id'' \<mapsto> None :: sample_value option]"
  let ?after = "[''name'' \<mapsto> None :: sample_value option]"
  have r: "received envChunk = CopyData (0x77 # [])" by (simp add: envChunk_def)
  have rel: "relations state1 1 = Some trial" by (simp add: state1_def)
  have d: "distinct (map Name (RelationMessage.Columns trial))" by (simp add: trial_def)
  have xi: "ParseXLogData ?ilib [] = Ok (chunk 200 [0x49])" by (simp add: constLib_def)
  have pi: "Parse ?ilib (WALData (chunk 200 [0x49])) = Ok (InsertMsg ?im)" by (simp add: constLib_def)
  have ri: "relationOf (InsertMsg ?im) = Some 1" by (simp add: insertOf_def)
  have xu: "ParseXLogData ?ulib [] = Ok (chunk 200 [0x55])" by (simp add: constLib_def)
  have pu: "Parse ?ulib (WALData (chunk 200 [0x55])) = Ok (UpdateMsg ?um)" by (simp add: constLib_def)
  have ru: "relationOf (UpdateMsg ?um) = Some 1" by (simp add: updateOf_def)
  have si: "fst (step ?ilib state1 envChunk) =
      [LogXLogData (chunk 200 [0x49]), LogReceive (InsertMsg ?im), PrintToast [],
       LogInsert ''public'' ''trial'' ?row]"
    by (simp add: sample_defs step_defs)
  have su: "fst (step ?ulib state1 envChunk) =
      [LogXLogData (chunk 200 [0x55]), LogReceive (UpdateMsg ?um),
       PrintOldTuple (UpdateMessage.OldTuple ?um), PrintToast [], PrintToast [],
       LogUpdate ''public'' ''trial'' ?after ?row]"
    by (simp add: sample_defs step_defs updateOf_def)
  have mi: "LogInsert ''public'' ''trial'' ?row \<in> set (fst (step ?ilib state1 envChunk))"
    by (simp add: si)
  have mu: "LogUpdate ''public'' ''trial'' ?after ?row \<in> set (fst (step ?ulib state1 envChunk))"
    by (simp add: su)
  have ci: "TupleData.Columns (Tuple ?im) = ?cols" by (simp add: insertOf_def)
  have cn: "TupleData.Columns (NewTuple ?um) = ?new" by (simp add: updateOf_def)
  have t: "TupleDataColumn.DataType (?cols ! 0) = 0x6E" "TupleDataColumn.DataType (?cols ! 1) = 0x75"
    "TupleDataColumn.DataType (?new ! 0) = 0x75" "TupleDataColumn.DataType (?new ! 1) = 0x6E"
    by (simp_all add: column_def)
  note I = emitted_row_null_toast [OF r xi pi ri rel d, THEN conjunct1, rule_format,
      of ?im "''public''" "''trial''" ?row]
  note U = emitted_row_null_toast [OF r xu pu ru rel d, THEN conjunct2, THEN conjunct1, rule_format,
      of ?um "''public''" "''trial''" ?after ?row]
  from I [of 0] I [of 1] mi ci t
  have 1: "?row (Name (RelationMessage.Columns trial ! 0)) = Some None"
    and 2: "?row (Name (RelationMessage.Columns trial ! 1)) = None"
    by simp_all
  from U [of 0] U [of 1] mu cn t
  have 3: "?after (Name (RelationMessage.Columns trial ! 0)) = None"
    and 4: "?after (Name (RelationMessage.Columns trial ! 1)) = Some None"
    by simp_all
  from r rel d mi mu 1 2 3 4 show ?thesis by blast
qed

text \<open>
  The claim C6 as stated fails when two columns of the cached schema share a name: for
  the relation \<open>public.twins\<close>, whose two columns are both named \<open>a\<close>, an Insert of a null
  column followed by an unchanged-TOAST column prints the row that binds \<open>a\<close> to \<open>nil\<close>,
  which is the name of the unchanged column too.
\<close>

theorem duplicate_name_binds_toast_to_nil:
  "step (constLib Err (Ok (chunk 200 [0x49]))
           (Ok (InsertMsg (insertOf 2 [column 0x6E [], column 0x75 []]))))
      state2 envChunk
     = ([LogXLogData (chunk 200 [0x49]),
         LogReceive (InsertMsg (insertOf 2 [column 0x6E [], column 0x75 []])),
         PrintToast [], LogInsert ''public'' ''twins'' [''a'' \<mapsto> None]],
        Inr (state2\<lparr>clientXLogPos := 201\<rparr>))
   \<and> TupleDataColumn.DataType ([column 0x6E [], column 0x75 []] ! 1) = 0x75
   \<and> [''a'' \<mapsto> None :: sample_value option] (Name (RelationMessage.Columns twins ! 1)) = Some None"
  by (simp add: sample_defs step_defs twins_def state2_def)

subsection \<open>Where streaming starts\<close>

lemma ensureSlot_requests:
  "StartReplication n p a \<notin> set (fst (ensureSlot env))"
  by (cases "slotQuery env") (simp_all add: ensureSlot_def)

lemma bootstrap_early:
  assumes "\<not> connectOk env \<or> \<not> dropPublicationOk env \<or> \<not> createPublicationOk env
           \<or> identifySystem env = Err"
  shows "StartReplication n p a \<notin> set (fst (bootstrap env)) \<and> (\<exists>st. snd (bootstrap env) = Inl st)"
proof (cases "identifySystem env")
  case Err
  then show ?thesis by (simp add: bootstrap_def)
next
  case (Ok sysident)
  with assms show ?thesis by (simp add: bootstrap_def)
qed

lemma bootstrap_late:
  assumes "connectOk env" "dropPublicationOk env" "createPublicationOk env"
    and "identifySystem env = Ok sysident"
  shows "fst (bootstrap env) =
           [Connect, ExecDropPublication, ExecCreatePublication, IdentifySystem]
           @ fst (ensureSlot env)
           @ (case snd (ensureSlot env) of
                Inl st \<Rightarrow> []
              | Inr u \<Rightarrow> [StartReplication slotName (XLogPos sysident) pluginArguments])"
    and "snd (bootstrap env) =
           (case snd (ensureSlot env) of
              Inl st \<Rightarrow> Inl st
            | Inr u \<Rightarrow> snd (startStream env sysident))"
  using assms
  by (simp_all add: bootstrap_def fst_bind_out snd_bind_out startStream_def split: sum.splits)


text \<open>
  Claim C8, as amended. The claim says that streaming starts from the slot's last
  confirmed position when the slot already existed. The program never reads that
  position: every \<open>StartReplication\<close> request bootstrap makes carries the position that
  \<open>IdentifySystem\<close> reported (\<open>sysident.XLogPos\<close>), and so does the loop's initial confirmed
  position, whatever the query for the slot returned and whether or not the slot was
  created in this run.
\<close>

theorem start_position:
  "(StartReplication n p a \<in> set (fst (bootstrap env)) \<longrightarrow>
      (\<exists>sysident. identifySystem env = Ok sysident \<and> p = XLogPos sysident))
 \<and> (snd (bootstrap env) = Inr s \<longrightarrow>
      (\<exists>sysident. identifySystem env = Ok sysident
         \<and> StartReplication slotName (XLogPos sysident) pluginArguments \<in> set (fst (bootstrap env))
         \<and> clientXLogPos s = XLogPos sysident))"
proof (cases "\<not> connectOk env \<or> \<not> dropPublicationOk env \<or> \<not> createPublicationOk env
           \<or> identifySystem env = Err")
  case True
  from bootstrap_early [OF True, of n p a] show ?thesis by auto
next
  case False
  then obtain sysident where ok: "connectOk env" "dropPublicationOk env" "createPublicationOk env"
    and id: "identifySystem env = Ok sysident"
    by (cases "identifySystem env") auto
  note b = bootstrap_late [OF ok id]
  have 1: "p = XLogPos sysident" if "StartReplication n p a \<in> set (fst (bootstrap env))"
    using that ensureSlot_requests [of n p a env]
    by (cases "snd (ensureSlot env)") (simp_all add: b(1))
  have 2: "StartReplication slotName (XLogPos sysident) pluginArguments \<in> set (fst (bootstrap env))
         \<and> clientXLogPos s = XLogPos sysident" if "snd (bootstrap env) = Inr s"
  proof (cases "snd (ensureSlot env)")
    case (Inl st)
    with that show ?thesis by (simp add: b(2))
  next
    case (Inr u)
    with that have "snd (startStream env sysident) = Inr s" by (simp add: b(2))
    then have "clientXLogPos s = XLogPos sysident"
      by (auto simp: startStream_def split: if_splits)
    with Inr show ?thesis by (simp add: b(1))
  qed
  from 1 2 id show ?thesis by blast
qed


theorem start_position_witness:
  "identifySystem bootEnvExisting = Ok sysident0
   \<and> StartReplication slotName 100 pluginArguments \<in> set (fst (bootstrap bootEnvExisting))
   \<and> (100 :: LSN) = XLogPos sysident0
   \<and> snd (bootstrap bootEnvNew)
       = Inr \<lparr>clientXLogPos = 100, nextStandbyMessageDeadline = 1000 + standbyMessageTimeout,
              relations = Map.empty\<rparr>
   \<and> identifySystem bootEnvNew = Ok sysident0
   \<and> StartReplication slotName (XLogPos sysident0) pluginArguments
       \<in> set (fst (bootstrap bootEnvNew))
   \<and> CreateReplicationSlot slotName outputPlugin False \<in> set (fst (bootstrap bootEnvNew))"
proof -
  let ?s = "\<lparr>clientXLogPos = 100, nextStandbyMessageDeadline = 1000 + standbyMessageTimeout,
              relations = Map.empty\<rparr>"
  have ie: "identifySystem bootEnvExisting = Ok sysident0" by (simp add: bootEnvExisting_def)
  have inew: "identifySystem bootEnvNew = Ok sysident0" by (simp add: bootEnvNew_def)
  have fe: "fst (bootstrap bootEnvExisting) =
     [Connect, ExecDropPublication, ExecCreatePublication, IdentifySystem,
      ExecSelectSlot slotName, StartReplication slotName 100 pluginArguments]"
    by (simp add: bootEnvExisting_def sysident0_def bootstrap_def ensureSlot_def startStream_def
        bind_out_def)
  have bn: "bootstrap bootEnvNew =
     ([Connect, ExecDropPublication, ExecCreatePublication, IdentifySystem,
       ExecSelectSlot slotName, CreateReplicationSlot slotName outputPlugin False,
       StartReplication slotName 100 pluginArguments], Inr ?s)"
    by (simp add: bootEnvNew_def sysident0_def bootstrap_def ensureSlot_def startStream_def
        bind_out_def)
  have me: "StartReplication slotName 100 pluginArguments \<in> set (fst (bootstrap bootEnvExisting))"
    by (simp add: fe)
  have sn: "snd (bootstrap bootEnvNew) = Inr ?s" by (simp add: bn)
  have cr: "CreateReplicationSlot slotName outputPlugin False \<in> set (fst (bootstrap bootEnvNew))"
    by (simp add: bn)
  from start_position [of slotName 100 pluginArguments bootEnvExisting] me ie
  have 1: "(100 :: LSN) = XLogPos sysident0" by auto
  from start_position [of slotName 100 pluginArguments bootEnvNew ?s] sn inew
  have 2: "StartReplication slotName (XLogPos sysident0) pluginArguments
       \<in> set (fst (bootstrap bootEnvNew))" by auto
  from ie me 1 sn inew 2 cr show ?thesis by blast
qed
text \<open>
  The claim C8 as stated fails: the slot exists with confirmed position 5, the system
  position is 100, no slot is created, and streaming is requested from 100.
\<close>

theorem starts_at_system_position:
  "bootstrap bootEnvExisting =
     ([Connect, ExecDropPublication, ExecCreatePublication, IdentifySystem,
       ExecSelectSlot slotName, StartReplication slotName 100 pluginArguments],
      Inr \<lparr>clientXLogPos = 100, nextStandbyMessageDeadline = 1000 + standbyMessageTimeout,
           relations = Map.empty\<rparr>)
   \<and> slotQuery bootEnvExisting
       = Ok [\<lparr>Rows = [\<lparr>slot_name = slotName, confirmed_flush_lsn = 5\<rparr>]\<rparr>]
   \<and> (100 :: LSN) \<noteq> 5"
  by (simp add: bootEnvExisting_def sysident0_def bootstrap_def ensureSlot_def startStream_def bind_out_def)



subsection \<open>Status updates\<close>

lemma bind_out_all:
  assumes "\<forall>x\<in>set (fst m). P x" and "\<And>a. \<forall>x\<in>set (fst (f a)). P x"
  shows "\<forall>x\<in>set (fst (bind_out m f)). P x"
  using assms by (cases "snd m") (auto simp: fst_bind_out)

lemma decodeColumn_quiet: "\<forall>x\<in>set (fst (decodeColumn ci rel idx col vs)). quiet x"
  by (auto simp: decodeColumn_def Let_def quiet_def split: result.splits)

lemma decodeColumns_quiet: "\<forall>x\<in>set (fst (decodeColumns ci rel idx cols vs)). quiet x"
proof (induction cols arbitrary: idx vs)
  case Nil
  then show ?case by simp
next
  case (Cons col cols)
  show ?case unfolding decodeColumns.simps
    by (rule bind_out_all) (rule decodeColumn_quiet, rule Cons.IH)
qed

lemma handleInsert_quiet: "\<forall>x\<in>set (fst (handleInsert ci s m)). quiet x"
proof (cases "relations s (InsertMessage.RelationID m)")
  case None
  then show ?thesis by (simp add: handleInsert_def)
next
  case (Some rel)
  have "\<forall>x\<in>set (fst (bind_out (decodeColumns ci rel 0 (TupleData.Columns (Tuple m)) Map.empty)
            (\<lambda>values. ([LogInsert (Namespace rel) (RelationName rel) values], Inr s)))). quiet x"
    by (rule bind_out_all) (rule decodeColumns_quiet, simp add: quiet_def)
  with Some show ?thesis by (simp add: handleInsert_def)
qed

lemma handleUpdate_quiet: "\<forall>x\<in>set (fst (handleUpdate ci s m)). quiet x"
proof (cases "relations s (UpdateMessage.RelationID m)")
  case None
  then show ?thesis by (simp add: handleUpdate_def)
next
  case (Some rel)
  have old: "\<forall>x\<in>set (fst (case UpdateMessage.OldTuple m of
                  None \<Rightarrow> ([], Inr Map.empty)
                | Some old \<Rightarrow> decodeColumns ci rel 0 (TupleData.Columns old) Map.empty)). quiet x"
    by (cases "UpdateMessage.OldTuple m") (simp_all add: decodeColumns_quiet)
  show ?thesis
    apply (simp only: handleUpdate_def Some option.case)
    apply (intro bind_out_all old decodeColumns_quiet)
     apply (simp_all add: quiet_def)
    done
qed

lemma handleLogical_quiet: "\<forall>x\<in>set (fst (handleLogical ci s m)). quiet x"
  using handleInsert_quiet [of ci s] handleUpdate_quiet [of ci s]
  by (cases m) (simp_all add: handleLogical_def quiet_def)

lemma handleXLogData_quiet: "\<forall>x\<in>set (fst (handleXLogData lib s data)). quiet x"
proof (cases "ParseXLogData lib data")
  case Err
  then show ?thesis by (simp add: handleXLogData_def)
next
  case (Ok xld)
  show ?thesis
  proof (cases "Parse lib (WALData xld)")
    case Err
    with Ok show ?thesis by (simp add: handleXLogData_def bind_out_def quiet_def)
  next
    case (Ok m)
    have "\<forall>x\<in>set (fst (bind_out ([LogXLogData xld], Inr ())
            (\<lambda>_. bind_out ([LogReceive m], Inr ())
                   (\<lambda>_. bind_out (handleLogical (NewConnInfo lib) s m)
                      (\<lambda>s'. ([], Inr (s'\<lparr>clientXLogPos :=
                                 WALStart xld + of_nat (length (WALData xld))\<rparr>))))))). quiet x"
      apply (rule bind_out_all)
       apply (simp add: quiet_def)
      apply (rule bind_out_all)
       apply (simp add: quiet_def)
      apply (rule bind_out_all)
       apply (rule handleLogical_quiet)
      apply simp
      done
    with Ok \<open>ParseXLogData lib data = Ok xld\<close> show ?thesis by (simp add: handleXLogData_def)
  qed
qed

lemma handleLogical_deadline:
  assumes "snd (handleLogical ci s m) = Inr s2"
  shows "nextStandbyMessageDeadline s2 = nextStandbyMessageDeadline s"
proof (cases m)
  case (InsertMsg x)
  show ?thesis
  proof (cases "relations s (InsertMessage.RelationID x)")
    case None
    with InsertMsg assms show ?thesis by (simp add: handleLogical_def handleInsert_def)
  next
    case (Some rel)
    from InsertMsg assms have "s2 = s"
      by (simp add: handleLogical_def snd_handleInsert [OF Some] split: sum.splits)
    then show ?thesis by simp
  qed
next
  case (UpdateMsg x)
  show ?thesis
  proof (cases "relations s (UpdateMessage.RelationID x)")
    case None
    with UpdateMsg assms show ?thesis by (simp add: handleLogical_def handleUpdate_def)
  next
    case (Some rel)
    from UpdateMsg assms have "s2 = s"
      by (simp add: handleLogical_def snd_handleUpdate [OF Some] split: sum.splits option.splits)
    then show ?thesis by simp
  qed
qed (use assms in \<open>auto simp: handleLogical_def\<close>)

lemma handleReceived_effects:
  "\<not> list_ex isSend (fst (handleReceived lib s r))
   \<and> (list_ex isReplyRequest (fst (handleReceived lib s r)) \<longleftrightarrow> asksReply lib r)"
proof (cases r)
  case (CopyData d)
  show ?thesis
  proof (cases d)
    case Nil
    with CopyData show ?thesis by (simp add: handleReceived_def asksReply_def)
  next
    case (Cons b data)
    consider "b = 0x6B" | "b = 0x77" | "b \<noteq> 0x6B" "b \<noteq> 0x77" by blast
    then show ?thesis
    proof cases
      case 1
      with CopyData Cons show ?thesis
        by (cases "ParsePrimaryKeepaliveMessage lib data")
          (simp_all add: handleReceived_def asksReply_def handleKeepalive_def)
    next
      case 2
      from handleXLogData_quiet [of lib s data]
      have "\<not> list_ex isSend (fst (handleXLogData lib s data))
          \<and> \<not> list_ex isReplyRequest (fst (handleXLogData lib s data))"
        by (auto simp: list_ex_iff quiet_def)
      with 2 CopyData Cons show ?thesis by (simp add: handleReceived_def asksReply_def)
    next
      case 3
      with CopyData Cons show ?thesis by (simp add: handleReceived_def asksReply_def)
    qed
  qed
qed (simp_all add: handleReceived_def asksReply_def)

lemma handleReceived_deadline:
  "snd (handleReceived lib s r) = Inr s' \<Longrightarrow>
     nextStandbyMessageDeadline s' = (if asksReply lib r then 0 else nextStandbyMessageDeadline s)"
proof (cases "\<exists>data. r = CopyData (0x77 # data)")
  case True
  assume a: "snd (handleReceived lib s r) = Inr s'"
  from True obtain data where r: "r = CopyData (0x77 # data)" by blast
  with a have "snd (handleXLogData lib s data) = Inr s'" by (simp add: handleReceived_def)
  then have "nextStandbyMessageDeadline s' = nextStandbyMessageDeadline s"
  proof (rule handleXLogData_Inr)
    fix xld m s2
    assume h: "snd (handleLogical (NewConnInfo lib) s m) = Inr s2"
      and s': "s' = s2\<lparr>clientXLogPos := WALStart xld + of_nat (length (WALData xld))\<rparr>"
    from h have "nextStandbyMessageDeadline s2 = nextStandbyMessageDeadline s"
      by (rule handleLogical_deadline)
    with s' show ?thesis by simp
  qed
  with r show ?thesis by (simp add: asksReply_def)
next
  case False
  assume a: "snd (handleReceived lib s r) = Inr s'"
  show ?thesis
  proof (cases r)
    case (CopyData d)
    show ?thesis
    proof (cases d)
      case Nil
      with CopyData a show ?thesis by (simp add: handleReceived_def)
    next
      case (Cons b data)
      with CopyData False have "b \<noteq> 0x77" by auto
      with Cons CopyData a show ?thesis
        by (cases "ParsePrimaryKeepaliveMessage lib data")
          (auto simp: handleReceived_def asksReply_def handleKeepalive_def split: if_splits)
    qed
  qed (use a in \<open>auto simp: handleReceived_def asksReply_def\<close>)
qed


lemma sendStatus_effects:
  "(list_ex isSend (fst (sendStatus s e)) \<longleftrightarrow> nextStandbyMessageDeadline s < now e)
   \<and> \<not> list_ex isReplyRequest (fst (sendStatus s e))"
  by (simp add: sendStatus_def)

lemma sendStatus_deadline:
  "snd (sendStatus s e) = Inr s1 \<Longrightarrow>
     nextStandbyMessageDeadline s1 =
       (if nextStandbyMessageDeadline s < now e then nowAfterSend e + standbyMessageTimeout
        else nextStandbyMessageDeadline s)"
  by (auto simp: sendStatus_def split: if_splits)

lemma step_sent:
  fixes lib :: "'v Lib"
  shows "statusSent (fst (step lib s e)) \<longleftrightarrow> nextStandbyMessageDeadline s < now e"
  by (cases "snd (sendStatus s e :: ('v effect, State) exec)")
    (simp_all add: statusSent_def step_def fst_bind_out handleReceived_effects sendStatus_effects)

lemma step_continues:
  fixes lib :: "'v Lib"
  assumes "snd (step lib s e) = Inr s'"
  shows "(list_ex isReplyRequest (fst (step lib s e)) \<longleftrightarrow> asksReply lib (received e))
       \<and> nextStandbyMessageDeadline s' =
           (if asksReply lib (received e) then 0
            else if nextStandbyMessageDeadline s < now e then nowAfterSend e + standbyMessageTimeout
            else nextStandbyMessageDeadline s)"
proof -
  from assms obtain s1 where s1: "snd (sendStatus s e :: ('v effect, State) exec) = Inr s1"
    and r: "snd (handleReceived lib s1 (received e)) = Inr s'"
    by (rule step_Inr)
  from s1 have "fst (step lib s e) =
      fst (sendStatus s e) @ fst (handleReceived lib s1 (received e))"
    by (simp add: step_def fst_bind_out)
  then have "list_ex isReplyRequest (fst (step lib s e)) \<longleftrightarrow> asksReply lib (received e)"
    by (simp add: handleReceived_effects sendStatus_effects)
  moreover from handleReceived_deadline [OF r] sendStatus_deadline [OF s1]
  have "nextStandbyMessageDeadline s' =
           (if asksReply lib (received e) then 0
            else if nextStandbyMessageDeadline s < now e then nowAfterSend e + standbyMessageTimeout
            else nextStandbyMessageDeadline s)"
    by simp
  ultimately show ?thesis by simp
qed

lemma step_tracks:
  assumes t: "tracks s g" and clock: "0 < now e"
  shows "(statusSent (fst (step lib s e)) \<longleftrightarrow> overdue g (now e))
       \<and> (\<forall>s'. snd (step lib s e) = Inr s' \<longrightarrow> tracks s' (observe g e (fst (step lib s e))))"
proof (intro conjI allI impI)
  from t clock show sent: "statusSent (fst (step lib s e)) \<longleftrightarrow> overdue g (now e)"
    by (auto simp: step_sent tracks_def overdue_def split: if_splits)
  fix s'
  assume "snd (step lib s e) = Inr s'"
  from step_continues [OF this] t
  show "tracks s' (observe g e (fst (step lib s e)))"
    by (auto simp: tracks_def observe_def Let_def step_sent split: if_splits)
qed

lemma conforms_tracks:
  "tracks s g \<Longrightarrow> \<forall>e\<in>set es. 0 < now e \<Longrightarrow> conforms lib s g es"
proof (induction es arbitrary: s g)
  case Nil
  then show ?case by simp
next
  case (Cons e es)
  from Cons.prems have clock: "0 < now e" and rest: "\<forall>e\<in>set es. 0 < now e" by simp_all
  note st = step_tracks [OF Cons.prems(1) clock, of lib]
  show ?case
  proof (cases "snd (step lib s e)")
    case (Inl st')
    with st show ?thesis by simp
  next
    case (Inr s')
    with st have "tracks s' (observe g e (fst (step lib s e)))" by blast
    from Cons.IH [OF this rest] st Inr show ?thesis by simp
  qed
qed

lemma bootstrap_tracks:
  assumes "snd (bootstrap benv) = Inr s0"
  shows "tracks s0 \<lparr>lastSent = bootNow benv, replyRequested = False\<rparr>"
proof -
  have start: "snd (startStream benv sysident) = Inr s0 \<Longrightarrow>
      nextStandbyMessageDeadline s0 = bootNow benv + standbyMessageTimeout" for sysident
    by (auto simp: startStream_def split: if_splits)
  from assms have "nextStandbyMessageDeadline s0 = bootNow benv + standbyMessageTimeout"
    by (cases "identifySystem benv")
      (auto simp: bootstrap_def snd_bind_out start split: if_splits sum.splits)
  then show ?thesis by (simp add: tracks_def)
qed

text \<open>
  Claim C3, as amended. The claim says that a status update is sent exactly when the
  interval has elapsed since the last send or the peer has asked for a reply, and that
  after such a request the very next iteration sends. The program tests
  \<open>time.Now().After(nextStandbyMessageDeadline)\<close>, a strict comparison, and marks a
  requested reply by the zero \<open>time.Time\<close>. So, in a session started by bootstrap and
  in iterations whose clock reads after the zero time, a status update is sent exactly
  when more than the interval has passed since the last send (since the start of the
  session while none was sent) or a keepalive asking for a reply was received since;
  and after such a keepalive the deadline is the zero time, so that the next iteration
  whose clock reads after the zero time sends, whatever the interval.
\<close>

theorem status_update_rule:
  fixes lib :: "'v Lib"
  shows "(snd (bootstrap benv) = Inr start \<and> (\<forall>e\<in>set es. 0 < now e) \<longrightarrow>
            conforms lib start \<lparr>lastSent = bootNow benv, replyRequested = False\<rparr> es)
       \<and> (received e = CopyData (0x6B # data) \<and> ParsePrimaryKeepaliveMessage lib data = Ok pkm
            \<and> ReplyRequested pkm \<and> snd (step lib s e) = Inr s' \<and> 0 < now e' \<longrightarrow>
            nextStandbyMessageDeadline s' = 0 \<and> statusSent (fst (step lib s' e')))"
proof (intro conjI impI; (elim conjE)?)
  assume "snd (bootstrap benv) = Inr start" and "\<forall>e\<in>set es. 0 < now e"
  then show "conforms lib start \<lparr>lastSent = bootNow benv, replyRequested = False\<rparr> es"
    by (intro conforms_tracks bootstrap_tracks)
next
  assume r: "received e = CopyData (0x6B # data)"
    and p: "ParsePrimaryKeepaliveMessage lib data = Ok pkm" and f: "ReplyRequested pkm"
    and c: "snd (step lib s e) = Inr s'" and clock: "0 < now e'"
  from r p f have "asksReply lib (received e)" by (simp add: asksReply_def)
  with step_continues [OF c] show d: "nextStandbyMessageDeadline s' = 0" by simp
  with clock show "statusSent (fst (step lib s' e'))" by (simp add: step_sent)
qed


theorem status_update_rule_witness:
  "snd (bootstrap bootEnvExisting)
     = Inr \<lparr>clientXLogPos = 100, nextStandbyMessageDeadline = 1000 + standbyMessageTimeout,
            relations = Map.empty\<rparr>
   \<and> conforms (constLib (Ok (keepalive True)) Err Err)
        \<lparr>clientXLogPos = 100, nextStandbyMessageDeadline = 1000 + standbyMessageTimeout,
         relations = Map.empty\<rparr>
        \<lparr>lastSent = bootNow bootEnvExisting, replyRequested = False\<rparr>
        [envAt 2000 Timeout, envAt 10000001001 (CopyData [0x6B]), envAt 10000001003 Timeout]
   \<and> fst (run (constLib (Ok (keepalive True)) Err Err)
        \<lparr>clientXLogPos = 100, nextStandbyMessageDeadline = 1000 + standbyMessageTimeout,
         relations = Map.empty\<rparr>
        [envAt 2000 Timeout, envAt 10000001001 (CopyData [0x6B]), envAt 10000001003 Timeout])
     = [SendStandbyStatusUpdate 100, LogSentStandbyStatus, LogKeepalive (keepalive True),
        SendStandbyStatusUpdate 100, LogSentStandbyStatus]
   \<and> received envKeepalive = CopyData (0x6B # [])
   \<and> snd (step (constLib (Ok (keepalive True)) Err Err) state0 envKeepalive)
       = Inr (state0\<lparr>nextStandbyMessageDeadline := 0\<rparr>)
   \<and> 0 < now (envAt 5 Timeout)
   \<and> statusSent (fst (step (constLib (Ok (keepalive True)) Err Err)
                         (state0\<lparr>nextStandbyMessageDeadline := 0\<rparr>) (envAt 5 Timeout)))"
proof -
  let ?lib = "constLib (Ok (keepalive True)) Err Err"
  let ?start = "\<lparr>clientXLogPos = 100, nextStandbyMessageDeadline = 1000 + standbyMessageTimeout,
         relations = Map.empty\<rparr>"
  let ?es = "[envAt 2000 Timeout, envAt 10000001001 (CopyData [0x6B]), envAt 10000001003 Timeout]"
  let ?s' = "state0\<lparr>nextStandbyMessageDeadline := 0\<rparr>"
  have b: "snd (bootstrap bootEnvExisting) = Inr ?start"
    by (simp add: bootEnvExisting_def sysident0_def bootstrap_def ensureSlot_def startStream_def
        bind_out_def)
  have clocks: "\<forall>e\<in>set ?es. 0 < now e" by (simp add: envAt_def)
  have r: "fst (run ?lib ?start ?es)
     = [SendStandbyStatusUpdate 100, LogSentStandbyStatus, LogKeepalive (keepalive True),
        SendStandbyStatusUpdate 100, LogSentStandbyStatus]"
    by (simp add: sample_defs step_defs envAt_def standbyMessageTimeout_def)
  have rk: "received envKeepalive = CopyData (0x6B # [])" by (simp add: envKeepalive_def)
  have p: "ParsePrimaryKeepaliveMessage ?lib [] = Ok (keepalive True)" by (simp add: constLib_def)
  have f: "ReplyRequested (keepalive True)" by (simp add: keepalive_def)
  have k: "snd (step ?lib state0 envKeepalive) = Inr ?s'"
    by (simp add: sample_defs step_defs)
  have c: "0 < now (envAt 5 Timeout)" by (simp add: envAt_def)
  note T = status_update_rule [where lib = ?lib and benv = bootEnvExisting and start = ?start
      and es = ?es and e = envKeepalive and data = "[]" and pkm = "keepalive True"
      and s = state0 and s' = ?s' and e' = "envAt 5 Timeout"]
  from T b clocks have 1: "conforms ?lib ?start
      \<lparr>lastSent = bootNow bootEnvExisting, replyRequested = False\<rparr> ?es"
    by blast
  from T rk p f k c have 2: "statusSent (fst (step ?lib ?s' (envAt 5 Timeout)))"
    by blast
  from b 1 r rk k c 2 show ?thesis by blast
qed

text \<open>
  The claim C3 as stated fails at two instants. After a keepalive that asks for a reply,
  an iteration whose clock reads the zero time sends nothing, since the zero time is not
  after the zero deadline. And an iteration whose clock reads exactly the interval after
  the last send sends nothing, although the interval has elapsed and the specification's
  rule says an update is due: the run below sends one update, in its first iteration only.
\<close>

theorem status_update_boundaries:
  "snd (step (constLib (Ok (keepalive True)) Err Err) state0 envKeepalive)
     = Inr (state0\<lparr>nextStandbyMessageDeadline := 0\<rparr>)
   \<and> now (envAt 0 Timeout) = 0
   \<and> \<not> statusSent (fst (step (constLib (Ok (keepalive True)) Err Err)
                           (state0\<lparr>nextStandbyMessageDeadline := 0\<rparr>) (envAt 0 Timeout)))
   \<and> fst (run (constLib Err Err Err) state0
             [envAt 10000000001 Timeout, envAt 20000000002 Timeout])
       = [SendStandbyStatusUpdate 100, LogSentStandbyStatus]
   \<and> now (envAt 20000000002 Timeout)
       = nowAfterSend (envAt 10000000001 Timeout) + standbyMessageTimeout
   \<and> dueForStatusUpdate
        \<lparr>lastSent = nowAfterSend (envAt 10000000001 Timeout), replyRequested = False\<rparr>
        (now (envAt 20000000002 Timeout))"
  by (simp add: sample_defs step_defs envAt_def standbyMessageTimeout_def statusSent_def
      dueForStatusUpdate_def)

end
